theory Spec2Isabelle
  imports Complex_Main "HOL-Library.Sublist"
begin

section \<open>Request bodies\<close>

text \<open>
  The body of a request is what \<^verbatim>\<open>express.json\<close> parsed: a JSON value, or nothing
  (\<^verbatim>\<open>undefined\<close>, the value \<open>None\<close> of \<open>json option\<close>). An object is the association
  list of its own properties.
\<close>

datatype json =
    JNull
  | JBool bool
  | JNum rat
  | JStr string
  | JArr "json list"
  | JObj "(string \<times> json) list"

text \<open>JavaScript's truthiness, as \<^verbatim>\<open>!x\<close> and \<^verbatim>\<open>x || y\<close> read it.\<close>

fun truthy :: "json option \<Rightarrow> bool" where
  "truthy None = False"
| "truthy (Some JNull) = False"
| "truthy (Some (JBool b)) = b"
| "truthy (Some (JNum n)) = (n \<noteq> 0)"
| "truthy (Some (JStr s)) = (s \<noteq> [])"
| "truthy (Some (JArr _)) = True"
| "truthy (Some (JObj _)) = True"

text \<open>
  Reading one of the properties the handlers destructure (\<^verbatim>\<open>url\<close>, \<^verbatim>\<open>target\<close>,
  \<^verbatim>\<open>value\<close>, \<^verbatim>\<open>fullPage\<close>, ...): only an object has them. \<open>get_prop\<close> is also the
  optional chaining \<^verbatim>\<open>x?.k\<close>, which gives \<^verbatim>\<open>undefined\<close> on \<^verbatim>\<open>null\<close> and
  \<^verbatim>\<open>undefined\<close>.
\<close>

fun get_prop :: "string \<Rightarrow> json option \<Rightarrow> json option" where
  "get_prop k (Some (JObj kvs)) = map_of kvs k"
| "get_prop k _ = None"

text \<open>\<^verbatim>\<open>req.body || {}\<close>\<close>

definition body_or_empty :: "json option \<Rightarrow> json option" where
  "body_or_empty b = (if truthy b then b else Some (JObj []))"

text \<open>A destructuring default \<^verbatim>\<open>{ k = d }\<close> applies when the property is \<^verbatim>\<open>undefined\<close>.\<close>

definition with_default :: "json \<Rightarrow> json option \<Rightarrow> json" where
  "with_default d v = (case v of None \<Rightarrow> d | Some x \<Rightarrow> x)"

section \<open>Scoring and findings\<close>

record distorted_image =
  src :: string
  naturalAR :: rat
  renderAR :: rat
  deltaPct :: rat

datatype finding_id = B1 | A1

datatype severity = medium | high

datatype evidence =
    Families "string list" nat nat
  | Image distorted_image

record finding =
  fid :: finding_id
  title :: string
  severity :: severity
  explanation :: string
  evidence :: evidence

record category_scores =
  typography :: int
  logos :: int

record analysis_meta =
  meta_url :: json
  meta_status :: nat
  fontsDetected :: "string list"
  distortedImages :: nat

record analysis_result =
  score :: int
  byCategory :: category_scores
  findings :: "finding list"
  meta :: analysis_meta

definition maxFamilies :: nat where
  "maxFamilies = 3"

text \<open>
  The texts of the findings, as code points below 256 (\<open>0xE1\<close> is a-acute, \<open>0xF1\<close>
  n-tilde, \<open>0xF3\<close> o-acute).
\<close>

definition B1_title :: string where
  "B1_title = ''Demasiadas familias tipogr'' @ [CHR 0xE1] @ ''ficas''"

definition B1_explanation :: string where
  "B1_explanation = ''Usar demasiadas familias da'' @ [CHR 0xF1] @ ''a la coherencia de marca.''"

definition A1_title :: string where
  "A1_title = ''Imagen posiblemente distorsionada''"

definition A1_explanation :: string where
  "A1_explanation = ''La proporci'' @ [CHR 0xF3]
     @ ''n de la imagen en pantalla difiere de su proporci'' @ [CHR 0xF3] @ ''n original.''"

text \<open>
  The finding pushed when \<^verbatim>\<open>fonts.length > maxFamilies\<close>. Its evidence holds the
  families, their number and the recommended ceiling (the source renders the ceiling as
  a text, a less-or-equal sign before the number).
\<close>

definition font_finding :: "string list \<Rightarrow> finding" where
  "font_finding fonts =
     \<lparr>fid = B1, title = B1_title, severity = medium, explanation = B1_explanation,
      evidence = Families fonts (length fonts) maxFamilies\<rparr>"

text \<open>The finding pushed for one entry \<^verbatim>\<open>d\<close> of \<^verbatim>\<open>distorted\<close>.\<close>

definition image_finding :: "distorted_image \<Rightarrow> finding" where
  "image_finding d =
     \<lparr>fid = A1, title = A1_title, severity = high, explanation = A1_explanation,
      evidence = Image d\<rparr>"

text \<open>
  \<^verbatim>\<open>const findings = []; if (fonts.length > maxFamilies) findings.push(B1);
  for (const d of distorted) findings.push(A1 of d)\<close>
\<close>

definition findings_of :: "string list \<Rightarrow> distorted_image list \<Rightarrow> finding list" where
  "findings_of fonts distorted =
     (if length fonts > maxFamilies then [font_finding fonts] else [])
     @ map image_finding distorted"

text \<open>
  \<^verbatim>\<open>Math.max(50, 100 - distorted.length * 10 - Math.max(0, fonts.length - maxFamilies) * 5)\<close>.
  The lengths are natural numbers; the arithmetic is done on integers, since the
  differences may be negative.
\<close>

definition score_of :: "string list \<Rightarrow> distorted_image list \<Rightarrow> int" where
  "score_of fonts distorted =
     max 50 (100 - int (length distorted) * 10
                 - max 0 (int (length fonts) - int maxFamilies) * 5)"

definition byCategory_of :: "string list \<Rightarrow> distorted_image list \<Rightarrow> category_scores" where
  "byCategory_of fonts distorted =
     \<lparr>typography = (if length fonts > maxFamilies then 70 else 95),
      logos = (if length distorted \<noteq> 0 then 65 else 95)\<rparr>"

text \<open>The object the analysis pass of \<^verbatim>\<open>/v1/analyze\<close> returns.\<close>

definition analysis :: "json \<Rightarrow> nat \<Rightarrow> string list \<Rightarrow> distorted_image list \<Rightarrow> analysis_result" where
  "analysis target_value resp_status fonts distorted =
     \<lparr>score = score_of fonts distorted,
      byCategory = byCategory_of fonts distorted,
      findings = findings_of fonts distorted,
      meta = \<lparr>meta_url = target_value, meta_status = resp_status,
              fontsDetected = fonts, distortedImages = length distorted\<rparr>\<rparr>"

section \<open>Page inspector\<close>

text \<open>
  Strings are lists of 8-bit characters: a \<open>char\<close> stands for a UTF-16 code unit below
  256, which covers the separators, quotes and letters the normalisation looks at.
\<close>

text \<open>The characters \<^verbatim>\<open>String.prototype.trim\<close> removes, among the code points below 256.\<close>

definition is_space :: "char \<Rightarrow> bool" where
  "is_space c = (of_char c \<in> {9, 10, 11, 12, 13, 32, 160 :: nat})"

text \<open>The class \<^verbatim>\<open>['"]\<close> of the regular expression.\<close>

definition is_quote :: "char \<Rightarrow> bool" where
  "is_quote c = (c = CHR 0x27 \<or> c = CHR 0x22)"

definition trim :: "string \<Rightarrow> string" where
  "trim s = rev (dropWhile is_space (rev (dropWhile is_space s)))"

text \<open>\<^verbatim>\<open>s.split(',')[0]\<close>: the text before the first comma.\<close>

definition first_token :: "string \<Rightarrow> string" where
  "first_token s = takeWhile (\<lambda>c. c \<noteq> CHR '','') s"

text \<open>
  \<^verbatim>\<open>.replace(/^['"]|['"]$/g, '')\<close>: the global replace scans from the left. The first
  alternative matches a quote at index 0 only; the second matches a quote that is the
  last character, unless the first alternative has consumed that same character.
\<close>

definition strip_quotes :: "string \<Rightarrow> string" where
  "strip_quotes s =
     (let s1 = (case s of [] \<Rightarrow> [] | c # cs \<Rightarrow> if is_quote c then cs else s)
      in if s1 \<noteq> [] \<and> is_quote (last s1) then butlast s1 else s1)"

text \<open>\<^verbatim>\<open>toLowerCase\<close> on code points below 256: A-Z, and the Latin-1 capitals but 0xD7.\<close>

definition lower_char :: "char \<Rightarrow> char" where
  "lower_char c =
     (let n = (of_char c :: nat)
      in if (65 \<le> n \<and> n \<le> 90) \<or> (192 \<le> n \<and> n \<le> 222 \<and> n \<noteq> 215)
         then char_of (n + 32) else c)"

definition toLowerCase :: "string \<Rightarrow> string" where
  "toLowerCase s = map lower_char s"

text \<open>
  \<^verbatim>\<open>const normalize = (s) => (s ? s.split(',')[0].trim().replace(/^['"]|['"]$/g, '').toLowerCase() : null)\<close>;
  \<open>None\<close> is \<^verbatim>\<open>null\<close>.
\<close>

definition normalize :: "string \<Rightarrow> string option" where
  "normalize s =
     (if s \<noteq> [] then Some (toLowerCase (strip_quotes (trim (first_token s)))) else None)"

text \<open>
  The loop over \<^verbatim>\<open>document.querySelectorAll('*')\<close>, on the computed
  \<^verbatim>\<open>fontFamily\<close> of each element. The \<^verbatim>\<open>Set\<close> keeps insertion order, so it is a
  list to which a new name is appended.
\<close>

fun collect_fonts :: "string list \<Rightarrow> string list \<Rightarrow> string list" where
  "collect_fonts acc [] = acc"
| "collect_fonts acc (s # ss) =
     (case normalize s of
        None \<Rightarrow> collect_fonts acc ss
      | Some fam \<Rightarrow>
          if fam \<noteq> [] then collect_fonts (if fam \<in> set acc then acc else acc @ [fam]) ss
          else collect_fonts acc ss)"

definition fonts_of :: "string list \<Rightarrow> string list" where
  "fonts_of families = collect_fonts [] families"

record img =
  naturalWidth :: nat
  naturalHeight :: nat
  clientWidth :: nat
  clientHeight :: nat
  currentSrc :: string
  img_src :: string

text \<open>
  JavaScript numbers are IEEE 754 doubles. A double is modelled by the rational it
  denotes, and \<open>fl\<close> rounds a rational to the nearest double, ties to the even
  significand of 53 bits. Overflow and subnormal numbers are left out: the ratios of
  image dimensions are far inside the normal range.
\<close>

text \<open>The number of binary digits of \<open>n\<close>.\<close>

fun bits :: "nat \<Rightarrow> nat" where
  "bits n = (if n = 0 then 0 else Suc (bits (n div 2)))"

declare bits.simps [simp del]

text \<open>The binary exponent \<open>e\<close> of \<open>x > 0\<close>: \<open>2\<^sup>e \<le> x < 2\<^sup>e\<^sup>+\<^sup>1\<close>.\<close>

definition expo :: "rat \<Rightarrow> int" where
  "expo x =
     (if 1 \<le> x then int (bits (nat \<lfloor>x\<rfloor>)) - 1
      else (let j = bits (nat \<lfloor>1 / x\<rfloor>) - 1
            in if x * 2 ^ j = 1 then - int j else - int j - 1))"

definition scale2 :: "int \<Rightarrow> rat \<Rightarrow> rat" where
  "scale2 k x = (if 0 \<le> k then x * 2 ^ nat k else x / 2 ^ nat (- k))"

text \<open>Rounding to the nearest integer, ties to even.\<close>

definition rne :: "rat \<Rightarrow> int" where
  "rne q =
     (let n = \<lfloor>q\<rfloor>; r = q - of_int n
      in if r < 1 / 2 then n else if 1 / 2 < r then n + 1 else if even n then n else n + 1)"

definition fl :: "rat \<Rightarrow> rat" where
  "fl x =
     (if x = 0 then 0
      else sgn x * scale2 (expo \<bar>x\<bar> - 52) (of_int (rne (scale2 (52 - expo \<bar>x\<bar>) \<bar>x\<bar>))))"

text \<open>
  \<^verbatim>\<open>Number(x.toFixed(k))\<close> for a double \<open>x \<ge> 0\<close>: \<^verbatim>\<open>toFixed\<close> takes the multiple of
  \<open>10\<^sup>-\<^sup>k\<close> nearest to the exact value of \<open>x\<close>, the larger one at a tie, and
  \<^verbatim>\<open>Number\<close> reads that decimal as a double.
\<close>

definition toFixed :: "nat \<Rightarrow> rat \<Rightarrow> rat" where
  "toFixed k x = fl (of_int \<lfloor>x * 10 ^ k + 1 / 2\<rfloor> / 10 ^ k)"

text \<open>\<^verbatim>\<open>if (!nw || !nh || !cw || !ch) continue\<close> skips an image unless this holds.\<close>

definition measured :: "img \<Rightarrow> bool" where
  "measured i = (naturalWidth i \<noteq> 0 \<and> naturalHeight i \<noteq> 0
                 \<and> clientWidth i \<noteq> 0 \<and> clientHeight i \<noteq> 0)"

definition natAR :: "img \<Rightarrow> rat" where
  "natAR i = fl (of_nat (naturalWidth i) / of_nat (naturalHeight i))"

definition rendAR :: "img \<Rightarrow> rat" where
  "rendAR i = fl (of_nat (clientWidth i) / of_nat (clientHeight i))"

definition delta :: "img \<Rightarrow> rat" where
  "delta i = fl (\<bar>fl (rendAR i - natAR i)\<bar> / natAR i)"

text \<open>The object pushed to \<^verbatim>\<open>OUT\<close> for a flagged image.\<close>

definition report :: "img \<Rightarrow> distorted_image" where
  "report i =
     \<lparr>src = (if currentSrc i \<noteq> [] then currentSrc i else img_src i),
      naturalAR = toFixed 3 (natAR i),
      renderAR = toFixed 3 (rendAR i),
      deltaPct = toFixed 1 (fl (delta i * 100))\<rparr>"

text \<open>
  The loop over \<^verbatim>\<open>document.images\<close>, with the constant \<^verbatim>\<open>THRESHOLD\<close> of the source
  as a parameter.
\<close>

fun distorted_at :: "rat \<Rightarrow> img list \<Rightarrow> distorted_image list" where
  "distorted_at th [] = []"
| "distorted_at th (i # is) =
     (if \<not> measured i then distorted_at th is
      else if delta i > th then report i # distorted_at th is
      else distorted_at th is)"

text \<open>\<^verbatim>\<open>const THRESHOLD = 0.03\<close>: the double nearest to 3/100, which is just below it.\<close>

definition THRESHOLD :: rat where
  "THRESHOLD = fl (3 / 100)"

definition distorted_of :: "img list \<Rightarrow> distorted_image list" where
  "distorted_of imgs = distorted_at THRESHOLD imgs"

record dom =
  fontFamilies :: "string list"
  images :: "img list"

section \<open>The browser engine\<close>

text \<open>
  The engine (Playwright) is outside the program. Every call to it is recorded in a
  trace, and an oracle says what the call issued at step \<open>t\<close> (the number of calls
  made before it) does: whether it throws, and what it returns otherwise. A run of a
  handler is determined by the oracle, and a theorem for every oracle holds for
  whatever the engine does.
\<close>

datatype waitUntil = networkidle | domcontentloaded

datatype event =
    Launch
  | NewContext nat nat
  | AddInitScript
  | SetExtraHTTPHeaders
  | NewPage
  | Close
  | SetViewportSize json json
  | Goto json waitUntil nat
  | Title
  | Screenshot json json json
  | EvaluateFonts
  | EvaluateImages

type_synonym trace = "event list"

text \<open>A thrown \<^verbatim>\<open>Error\<close>: its \<^verbatim>\<open>name\<close> and its \<^verbatim>\<open>message\<close>.\<close>

datatype err = Err (ename: string) (emessage: string)

text \<open>What \<^verbatim>\<open>page.goto\<close> resolves to, when it is not \<^verbatim>\<open>null\<close>.\<close>

record response =
  status :: nat
  ok :: bool

record engine =
  throws :: "nat \<Rightarrow> err option"
  goto_response :: "nat \<Rightarrow> response option"
  page_title :: "nat \<Rightarrow> string"
  screenshot_buffer :: "nat \<Rightarrow> char list"
  document :: "nat \<Rightarrow> dom"

text \<open>A computation either throws or returns, and extends the trace.\<close>

type_synonym 'a io = "trace \<Rightarrow> (err + 'a) \<times> trace"

definition return_io :: "'a \<Rightarrow> 'a io" where
  "return_io x tr = (Inr x, tr)"

text \<open>\<^verbatim>\<open>const x = await m; ...\<close>: a throw of \<open>m\<close> skips the rest.\<close>

definition bind_io :: "'a io \<Rightarrow> ('a \<Rightarrow> 'b io) \<Rightarrow> 'b io" where
  "bind_io m f tr = (case m tr of (Inl e, tr') \<Rightarrow> (Inl e, tr') | (Inr x, tr') \<Rightarrow> f x tr')"

definition engine_call :: "engine \<Rightarrow> event \<Rightarrow> (nat \<Rightarrow> 'a) \<Rightarrow> 'a io" where
  "engine_call E ev result tr =
     (case throws E (length tr) of
        Some e \<Rightarrow> (Inl e, tr @ [ev])
      | None \<Rightarrow> (Inr (result (length tr)), tr @ [ev]))"

text \<open>
  \<^verbatim>\<open>withPage(fn)\<close>, third revision. No handler passes the viewport option, so the
  defaults 1366 and 768 are used. The \<^verbatim>\<open>finally\<close> block closes the browser after
  \<open>fn\<close>, whatever \<open>fn\<close> did; an exception of \<^verbatim>\<open>browser.close()\<close> replaces the outcome
  of \<open>fn\<close>.
\<close>

definition withPage :: "engine \<Rightarrow> 'a io \<Rightarrow> 'a io" where
  "withPage E fn =
     bind_io (engine_call E Launch (\<lambda>_. ())) (\<lambda>_.
     bind_io (engine_call E (NewContext 1366 768) (\<lambda>_. ())) (\<lambda>_.
     bind_io (engine_call E AddInitScript (\<lambda>_. ())) (\<lambda>_.
     bind_io (engine_call E SetExtraHTTPHeaders (\<lambda>_. ())) (\<lambda>_.
     bind_io (engine_call E NewPage (\<lambda>_. ())) (\<lambda>_ tr.
       (case fn tr of (r, tr1) \<Rightarrow>
          (case engine_call E Close (\<lambda>_. ()) tr1 of
             (Inl e, tr2) \<Rightarrow> (Inl e, tr2)
           | (Inr _, tr2) \<Rightarrow> (r, tr2))))))))"

text \<open>The decimal text of a number, as a template literal renders it.\<close>

fun decimal :: "nat \<Rightarrow> string" where
  "decimal n =
     (if n < 10 then [char_of (48 + n)]
      else decimal (n div 10) @ [char_of (48 + n mod 10)])"

declare decimal.simps [simp del]

text \<open>\<^verbatim>\<open>new Error(`No se pudo cargar la URL (status=${...})`)\<close>\<close>

definition navigation_error :: "string \<Rightarrow> err" where
  "navigation_error s = Err ''Error'' (''No se pudo cargar la URL (status='' @ s @ '')'')"

text \<open>
  \<^verbatim>\<open>safeGoto(page, url)\<close>, third revision. The first attempt is inside
  \<^verbatim>\<open>try { } catch (_) { }\<close>; the second is not.
\<close>

definition safeGoto :: "engine \<Rightarrow> json \<Rightarrow> response io" where
  "safeGoto E url tr =
     (let second = (\<lambda>tr1.
            case engine_call E (Goto url domcontentloaded 60000) (goto_response E) tr1 of
              (Inl e, tr2) \<Rightarrow> (Inl e, tr2)
            | (Inr None, tr2) \<Rightarrow> (Inl (navigation_error ''desconocido''), tr2)
            | (Inr (Some r2), tr2) \<Rightarrow>
                if ok r2 then (Inr r2, tr2)
                else (Inl (navigation_error (decimal (status r2))), tr2))
      in case engine_call E (Goto url networkidle 60000) (goto_response E) tr of
           (Inr (Some r1), tr1) \<Rightarrow> if ok r1 then (Inr r1, tr1) else second tr1
         | (_, tr1) \<Rightarrow> second tr1)"

section \<open>HTTP surface\<close>

record screenshot_meta =
  meta_type :: json
  meta_quality :: json
  meta_fullPage :: json
  meta_width :: json
  meta_height :: json
  meta_resp_status :: nat

datatype payload =
    Health
  | Failure string string
  | Blocked string string string
  | Shot string string screenshot_meta
  | Analysis analysis_result
  | NoContent
  | FrameworkError string

record reply =
  http_status :: nat
  payload :: payload

text \<open>\<^verbatim>\<open>String(e?.message || e)\<close>: the message, or the name when the message is empty.\<close>

definition message_of :: "err \<Rightarrow> string" where
  "message_of e = (if emessage e \<noteq> [] then emessage e else ename e)"

text \<open>\<^verbatim>\<open>buf.toString('base64')\<close> (RFC 4648, with padding).\<close>

definition b64_alphabet :: string where
  "b64_alphabet =
     ''ABCDEFGHIJKLMNOPQRSTUVWXYZabcdefghijklmnopqrstuvwxyz0123456789+/''"

fun base64 :: "char list \<Rightarrow> string" where
  "base64 [] = []"
| "base64 [a] =
     (let x = (of_char a :: nat)
      in [b64_alphabet ! (x div 4), b64_alphabet ! (x mod 4 * 16), CHR ''='', CHR ''=''])"
| "base64 [a, b] =
     (let x = (of_char a :: nat); y = (of_char b :: nat)
      in [b64_alphabet ! (x div 4), b64_alphabet ! (x mod 4 * 16 + y div 16),
          b64_alphabet ! (y mod 16 * 4), CHR ''=''])"
| "base64 (a # b # c # rest) =
     (let x = (of_char a :: nat); y = (of_char b :: nat); z = (of_char c :: nat)
      in [b64_alphabet ! (x div 4), b64_alphabet ! (x mod 4 * 16 + y div 16),
          b64_alphabet ! (y mod 16 * 4 + z div 64), b64_alphabet ! (z mod 64)]
         @ base64 rest)"

text \<open>\<^verbatim>\<open>GET /v1/health\<close>\<close>

definition health :: "trace \<Rightarrow> reply \<times> trace" where
  "health tr = (\<lparr>http_status = 200, payload = Health\<rparr>, tr)"

text \<open>The function \<^verbatim>\<open>/v1/screenshot\<close> hands to \<^verbatim>\<open>withPage\<close>.\<close>

definition screenshot_pass ::
  "engine \<Rightarrow> json \<Rightarrow> json \<Rightarrow> json \<Rightarrow> json \<Rightarrow> json \<Rightarrow> json \<Rightarrow> payload io" where
  "screenshot_pass E url fullPage type quality width height =
     bind_io (engine_call E (SetViewportSize width height) (\<lambda>_. ())) (\<lambda>_.
     bind_io (safeGoto E url) (\<lambda>resp.
     bind_io (engine_call E Title (page_title E)) (\<lambda>title.
     bind_io (engine_call E (Screenshot fullPage type quality) (screenshot_buffer E)) (\<lambda>buf.
       return_io (Shot title (base64 buf)
         \<lparr>meta_type = type, meta_quality = quality, meta_fullPage = fullPage,
          meta_width = width, meta_height = height, meta_resp_status = status resp\<rparr>)))))"

text \<open>\<^verbatim>\<open>POST /v1/screenshot\<close>, third revision.\<close>

definition screenshot :: "engine \<Rightarrow> json option \<Rightarrow> trace \<Rightarrow> reply \<times> trace" where
  "screenshot E body tr =
     (let b = body_or_empty body;
          fullPage = with_default (JBool False) (get_prop ''fullPage'' b);
          type = with_default (JStr ''jpeg'') (get_prop ''type'' b);
          quality = with_default (JNum 60) (get_prop ''quality'' b);
          width = with_default (JNum 1280) (get_prop ''width'' b);
          height = with_default (JNum 1000) (get_prop ''height'' b)
      in case get_prop ''url'' b of
           None \<Rightarrow>
             (\<lparr>http_status = 400, payload = Failure ''bad_request'' ''url requerida''\<rparr>, tr)
         | Some url \<Rightarrow>
             if \<not> truthy (Some url) then
               (\<lparr>http_status = 400, payload = Failure ''bad_request'' ''url requerida''\<rparr>, tr)
             else
               (case withPage E (screenshot_pass E url fullPage type quality width height) tr of
                  (Inr result, tr') \<Rightarrow> (\<lparr>http_status = 200, payload = result\<rparr>, tr')
                | (Inl e, tr') \<Rightarrow>
                    (\<lparr>http_status = 500,
                      payload = Failure ''screenshot_failed'' (message_of e)\<rparr>, tr')))"

text \<open>The analysis pass: the function \<^verbatim>\<open>/v1/analyze\<close> hands to \<^verbatim>\<open>withPage\<close> first.\<close>

definition analysis_pass :: "engine \<Rightarrow> json \<Rightarrow> analysis_result io" where
  "analysis_pass E target_value =
     bind_io (safeGoto E target_value) (\<lambda>resp.
     bind_io (engine_call E EvaluateFonts (\<lambda>t. fonts_of (fontFamilies (document E t)))) (\<lambda>fonts.
     bind_io (engine_call E EvaluateImages (\<lambda>t. distorted_of (images (document E t)))) (\<lambda>distorted.
       return_io (analysis target_value (status resp) fonts distorted))))"

text \<open>The fallback: navigate again and take a JPEG of the viewport at quality 60.\<close>

definition fallback_pass :: "engine \<Rightarrow> json \<Rightarrow> string io" where
  "fallback_pass E target_value =
     bind_io (safeGoto E target_value) (\<lambda>_.
     bind_io (engine_call E (Screenshot (JBool False) (JStr ''jpeg'') (JNum 60))
                (screenshot_buffer E)) (\<lambda>buf.
       return_io (base64 buf)))"

definition blocked_message :: "err \<Rightarrow> string" where
  "blocked_message e =
     ''La p'' @ [CHR 0xE1] @ ''gina bloque'' @ [CHR 0xF3] @ '' el an'' @ [CHR 0xE1]
     @ ''lisis DOM ('' @ message_of e
     @ ''). Se adjunta mini-captura para auditor'' @ [CHR 0xED] @ ''a visual.''"

text \<open>\<^verbatim>\<open>POST /v1/analyze\<close>, third revision.\<close>

definition analyze :: "engine \<Rightarrow> json option \<Rightarrow> trace \<Rightarrow> reply \<times> trace" where
  "analyze E body tr =
     (let target = get_prop ''target'' (body_or_empty body)
      in case get_prop ''value'' target of
           None \<Rightarrow>
             (\<lparr>http_status = 400,
               payload = Failure ''bad_request'' ''target.value requerido''\<rparr>, tr)
         | Some v \<Rightarrow>
             if \<not> truthy (Some v) then
               (\<lparr>http_status = 400,
                 payload = Failure ''bad_request'' ''target.value requerido''\<rparr>, tr)
             else
               (case withPage E (analysis_pass E v) tr of
                  (Inr out, tr1) \<Rightarrow> (\<lparr>http_status = 200, payload = Analysis out\<rparr>, tr1)
                | (Inl e, tr1) \<Rightarrow>
                    (case withPage E (fallback_pass E v) tr1 of
                       (Inr fallback, tr2) \<Rightarrow>
                         (\<lparr>http_status = 502,
                           payload = Blocked ''analyze_blocked'' (blocked_message e) fallback\<rparr>,
                          tr2)
                     | (Inl e2, tr2) \<Rightarrow>
                         (\<lparr>http_status = 500,
                           payload = Failure ''analyze_failed'' (message_of e2)\<rparr>, tr2))))"

subsection \<open>Requests and the middlewares in front of the routes\<close>

text \<open>
  A request as the pipeline sees it: its HTTP method, the route Express matches for
  that method and the path, its \<^verbatim>\<open>Authorization\<close> header, what the body parser makes of its raw
  body, and \<^verbatim>\<open>req.body\<close>, which the body parser sets.
\<close>

datatype route = HealthRoute | ScreenshotRoute | AnalyzeRoute | NoRoute

datatype parse_result = Parsed "json option" | Malformed | TooLarge

record request =
  http_method :: string
  route :: route
  authorization :: "string option"
  body_parse :: parse_result
  body :: "json option"

text \<open>
  \<^verbatim>\<open>app.use(cors())\<close>, the package with its default options: a request with method
  \<^verbatim>\<open>OPTIONS\<close> is a preflight, answered 204 with no body and not passed on; any other
  request is passed on.
\<close>

definition cors ::
  "(request \<Rightarrow> trace \<Rightarrow> reply \<times> trace) \<Rightarrow> request \<Rightarrow> trace \<Rightarrow> reply \<times> trace" where
  "cors next req tr =
     (if http_method req = ''OPTIONS'' then (\<lparr>http_status = 204, payload = NoContent\<rparr>, tr)
      else next req tr)"

text \<open>
  \<^verbatim>\<open>app.use(express.json({ limit: '4mb' }))\<close>: a body that does not parse, or is over the
  limit, raises an error with status 400 or 413, which Express answers itself since the
  program installs no error handler; otherwise \<^verbatim>\<open>req.body\<close> is set and the request
  passed on.
\<close>

definition express_json ::
  "(request \<Rightarrow> trace \<Rightarrow> reply \<times> trace) \<Rightarrow> request \<Rightarrow> trace \<Rightarrow> reply \<times> trace" where
  "express_json next req tr =
     (case body_parse req of
        Malformed \<Rightarrow> (\<lparr>http_status = 400, payload = FrameworkError ''entity.parse.failed''\<rparr>, tr)
      | TooLarge \<Rightarrow> (\<lparr>http_status = 413, payload = FrameworkError ''entity.too.large''\<rparr>, tr)
      | Parsed b \<Rightarrow> next (req\<lparr>body := b\<rparr>) tr)"

text \<open>The three routes of the third revision; Express answers 404 when none matches.\<close>

definition router :: "engine \<Rightarrow> request \<Rightarrow> trace \<Rightarrow> reply \<times> trace" where
  "router E req tr =
     (case route req of
        HealthRoute \<Rightarrow> health tr
      | ScreenshotRoute \<Rightarrow> screenshot E (body req) tr
      | AnalyzeRoute \<Rightarrow> analyze E (body req) tr
      | NoRoute \<Rightarrow> (\<lparr>http_status = 404, payload = FrameworkError ''not found''\<rparr>, tr))"

text \<open>
  The third revision registers \<^verbatim>\<open>cors()\<close>, \<^verbatim>\<open>express.json()\<close>, a request logger
  (which only writes to the console) and the routes. It reads no \<^verbatim>\<open>API_KEY\<close>.
\<close>

definition app_rev3 :: "engine \<Rightarrow> request \<Rightarrow> trace \<Rightarrow> reply \<times> trace" where
  "app_rev3 E = cors (express_json (router E))"

subsection \<open>The bearer-token gate of the second revision\<close>

text \<open>\<^verbatim>\<open>const API_KEY = process.env.API_KEY || null\<close>\<close>

definition API_KEY :: "string option \<Rightarrow> string option" where
  "API_KEY env_value = (case env_value of None \<Rightarrow> None | Some k \<Rightarrow> if k = [] then None else Some k)"

text \<open>
  The middleware registered after \<^verbatim>\<open>cors()\<close>, \<^verbatim>\<open>express.json()\<close> and the request
  logger, and before every route; \<open>next\<close> is the rest of the pipeline.
  \<^verbatim>\<open>req.get('Authorization')\<close> is \<^verbatim>\<open>undefined\<close> (\<open>None\<close>) when the header is absent.
\<close>

definition auth ::
  "string option \<Rightarrow> (request \<Rightarrow> trace \<Rightarrow> reply \<times> trace) \<Rightarrow> request \<Rightarrow> trace \<Rightarrow> reply \<times> trace" where
  "auth env_value next req tr =
     (case API_KEY env_value of
        None \<Rightarrow> next req tr
      | Some k \<Rightarrow>
          (let header = (case authorization req of None \<Rightarrow> [] | Some h \<Rightarrow> h)
           in if header = ''Bearer '' @ k then next req tr
              else (\<lparr>http_status = 401,
                     payload = Failure ''unauthorized'' ''Missing/invalid bearer token''\<rparr>, tr)))"

text \<open>
  The second revision registers \<^verbatim>\<open>cors()\<close>, \<^verbatim>\<open>express.json()\<close>, the request logger,
  the gate and then its routes, which are the parameter \<open>routes\<close>.
\<close>

definition app_rev2 ::
  "string option \<Rightarrow> (request \<Rightarrow> trace \<Rightarrow> reply \<times> trace) \<Rightarrow> request \<Rightarrow> trace \<Rightarrow> reply \<times> trace" where
  "app_rev2 env_value routes = cors (express_json (auth env_value routes))"

section \<open>Notions used in the statements\<close>

text \<open>An image is pushed to \<^verbatim>\<open>OUT\<close> when it is not skipped and its delta exceeds the threshold.\<close>

definition flagged :: "rat \<Rightarrow> img \<Rightarrow> bool" where
  "flagged th i = (measured i \<and> delta i > th)"

text \<open>A character that the trimming or the quote stripping removes at either end.\<close>

definition edge_char :: "char \<Rightarrow> bool" where
  "edge_char c = (is_space c \<or> is_quote c)"

text \<open>The error \<^verbatim>\<open>safeGoto\<close> constructs itself, recognised by its name and the shape of its message.\<close>

definition is_navigation_error :: "err \<Rightarrow> bool" where
  "is_navigation_error e =
     (ename e = ''Error''
      \<and> prefix ''No se pudo cargar la URL (status='' (emessage e)
      \<and> suffix '')'' (emessage e))"

text \<open>The calls of \<^verbatim>\<open>withPage\<close> before its \<^verbatim>\<open>try\<close> block, in order.\<close>

definition setup_events :: "event list" where
  "setup_events = [Launch, NewContext 1366 768, AddInitScript, SetExtraHTTPHeaders, NewPage]"

text \<open>The five set-up calls issued from step \<open>t\<close> all return.\<close>

definition setup_succeeds :: "engine \<Rightarrow> nat \<Rightarrow> bool" where
  "setup_succeeds E t =
     (throws E t = None \<and> throws E (Suc t) = None \<and> throws E (Suc (Suc t)) = None
      \<and> throws E (Suc (Suc (Suc t))) = None \<and> throws E (Suc (Suc (Suc (Suc t)))) = None)"

text \<open>
  A session is acquired when \<^verbatim>\<open>context.newPage()\<close> returns: \<open>acquired_from E t evs\<close>
  counts the \<open>NewPage\<close> calls in \<open>evs\<close> that do not throw, where \<open>evs\<close> starts at step \<open>t\<close>.
  A session is released by \<^verbatim>\<open>browser.close()\<close>.
\<close>

fun acquired_from :: "engine \<Rightarrow> nat \<Rightarrow> event list \<Rightarrow> nat" where
  "acquired_from E t [] = 0"
| "acquired_from E t (ev # evs) =
     (if ev = NewPage \<and> throws E t = None then 1 else 0) + acquired_from E (Suc t) evs"

definition acquired :: "engine \<Rightarrow> trace \<Rightarrow> nat" where
  "acquired E tr = acquired_from E 0 tr"

definition released :: "trace \<Rightarrow> nat" where
  "released tr = count_list tr Close"

text \<open>
  A browser is launched when \<^verbatim>\<open>chromium.launch()\<close> returns: \<open>launched_from E t evs\<close>
  counts the \<open>Launch\<close> calls in \<open>evs\<close> that do not throw.
\<close>

fun launched_from :: "engine \<Rightarrow> nat \<Rightarrow> event list \<Rightarrow> nat" where
  "launched_from E t [] = 0"
| "launched_from E t (ev # evs) =
     (if ev = Launch \<and> throws E t = None then 1 else 0) + launched_from E (Suc t) evs"

definition launched :: "engine \<Rightarrow> trace \<Rightarrow> nat" where
  "launched E tr = launched_from E 0 tr"

text \<open>
  A computation that only talks to the page it was given: whatever it does, it appends
  engine calls other than \<open>NewPage\<close> and \<open>Close\<close> to the trace.
\<close>

definition page_only :: "'a io \<Rightarrow> bool" where
  "page_only fn = (\<forall>tr. \<exists>evs. snd (fn tr) = tr @ evs \<and> NewPage \<notin> set evs \<and> Close \<notin> set evs)"


section \<open>Concrete engines, pages and requests\<close>

text \<open>An engine that never throws, on a page that loads at once with two font families.\<close>

definition example_engine :: engine where
  "example_engine =
     \<lparr>throws = (\<lambda>_. None),
      goto_response = (\<lambda>_. Some \<lparr>status = 200, ok = True\<rparr>),
      page_title = (\<lambda>_. ''Example''),
      screenshot_buffer = (\<lambda>_. ''Man''),
      document = (\<lambda>_. \<lparr>fontFamilies = [''Arial, sans-serif'', ''Georgia''], images = []\<rparr>)\<rparr>"

definition example_body :: "json option" where
  "example_body = Some (JObj [(''target'', JObj [(''value'', JStr ''http://example.org'')])])"

text \<open>Three images: one stretched to twice its width, one scaled evenly, one not loaded.\<close>

definition example_images :: "img list" where
  "example_images =
     [\<lparr>naturalWidth = 100, naturalHeight = 100, clientWidth = 200, clientHeight = 100,
       currentSrc = [], img_src = ''logo.png''\<rparr>,
      \<lparr>naturalWidth = 100, naturalHeight = 100, clientWidth = 50, clientHeight = 50,
       currentSrc = ''hero@2x.png'', img_src = ''hero.png''\<rparr>,
      \<lparr>naturalWidth = 0, naturalHeight = 0, clientWidth = 10, clientHeight = 10,
       currentSrc = [], img_src = ''pending.png''\<rparr>]"

text \<open>The exception of a \<^verbatim>\<open>page.goto\<close> that runs into its timeout.\<close>

definition timeout_error :: err where
  "timeout_error = Err ''TimeoutError'' ''page.goto: Timeout 60000ms exceeded.''"

text \<open>An engine on which every call throws that exception.\<close>

definition timeout_engine :: engine where
  "timeout_engine = example_engine\<lparr>throws := (\<lambda>_. Some timeout_error)\<rparr>"

text \<open>An engine whose call at step 0 throws and whose later navigations answer 404.\<close>

definition not_found_engine :: engine where
  "not_found_engine =
     example_engine\<lparr>throws := (\<lambda>t. if t = 0 then Some timeout_error else None),
                    goto_response := (\<lambda>_. Some \<lparr>status = 404, ok = False\<rparr>)\<rparr>"

text \<open>An engine on which every navigation is answered with status 404.\<close>

definition always_404_engine :: engine where
  "always_404_engine = example_engine\<lparr>goto_response := (\<lambda>_. Some \<lparr>status = 404, ok = False\<rparr>)\<rparr>"

text \<open>An engine on which the script evaluation issued at step 6 throws.\<close>

definition blocked_engine :: engine where
  "blocked_engine =
     example_engine\<lparr>throws := (\<lambda>t. if t = 6
        then Some (Err ''Error'' ''page.evaluate: Execution context was destroyed'')
        else None)\<rparr>"

text \<open>
  An engine on which \<^verbatim>\<open>browser.newContext()\<close> throws each time it is called in a run of
  \<^verbatim>\<open>/v1/analyze\<close> (steps 1 and 3), while \<^verbatim>\<open>chromium.launch()\<close> returns.
\<close>

definition context_fails_engine :: engine where
  "context_fails_engine =
     example_engine\<lparr>throws := (\<lambda>t. if t = 1 \<or> t = 3
        then Some (Err ''Error'' ''browser.newContext: Target closed'')
        else None)\<rparr>"


text \<open>Computed font families of a page with four distinct first families.\<close>

definition busy_families :: "string list" where
  "busy_families =
     [''Arial, sans-serif'', ''Georgia'', ''arial'', ''Verdana'',
      [CHR 0x22] @ ''Fira Code'' @ [CHR 0x22] @ '', monospace'']"

text \<open>An engine that never throws, on a page with those families and the three images.\<close>

definition busy_engine :: engine where
  "busy_engine =
     example_engine\<lparr>document := (\<lambda>_. \<lparr>fontFamilies = busy_families, images = example_images\<rparr>)\<rparr>"

section \<open>Basic facts about the model\<close>

lemma bind_io_Inr:
  assumes "bind_io m f tr = (Inr y, tr')"
  obtains x tr1 where "m tr = (Inr x, tr1)" and "f x tr1 = (Inr y, tr')"
  using assms by (auto simp: bind_io_def split: prod.splits sum.splits)

lemma engine_call_Inr:
  assumes "engine_call E ev res tr = (Inr x, tr')"
  shows "x = res (length tr) \<and> tr' = tr @ [ev] \<and> throws E (length tr) = None"
  using assms by (auto simp: engine_call_def split: option.splits)

lemma withPage_Inr:
  assumes "withPage E fn tr = (Inr y, tr')"
  obtains tr0 tr1 where "fn tr0 = (Inr y, tr1)"
  using assms unfolding withPage_def
  by (auto elim!: bind_io_Inr split: prod.splits sum.splits)

lemma analysis_pass_Inr:
  assumes "analysis_pass E v tr = (Inr r, tr')"
  obtains st t where
    "r = analysis v st (fonts_of (fontFamilies (document E t)))
                       (distorted_of (images (document E (Suc t))))"
  using assms unfolding analysis_pass_def
  by (auto elim!: bind_io_Inr simp: return_io_def dest!: engine_call_Inr)

lemma analyze_Analysis:
  assumes "analyze E b tr = (rep, tr')" and "payload rep = Analysis r"
  obtains v st t where
    "r = analysis v st (fonts_of (fontFamilies (document E t)))
                       (distorted_of (images (document E (Suc t))))"
  using assms unfolding analyze_def Let_def
  by (auto split: option.splits if_splits prod.splits sum.splits elim!: withPage_Inr analysis_pass_Inr)

lemma score_analysis:
  "score (analysis v st fonts distorted)
     = max 50 (100 - 10 * int (length distorted) - 5 * max 0 (int (length fonts) - 3))"
  by (simp add: analysis_def score_of_def maxFamilies_def mult.commute)

lemma meta_analysis:
  "fontsDetected (meta (analysis v st fonts distorted)) = fonts"
  "distortedImages (meta (analysis v st fonts distorted)) = length distorted"
  by (simp_all add: analysis_def)

lemma example_fonts: "fonts_of [''Arial, sans-serif'', ''Georgia''] = [''arial'', ''georgia'']"
  by (simp add: fonts_of_def normalize_def first_token_def trim_def strip_quotes_def
      toLowerCase_def lower_char_def is_space_def is_quote_def char_of_def bit_iff_odd)

lemma example_analyze:
  "analyze example_engine example_body [] =
     (\<lparr>http_status = 200,
       payload = Analysis (analysis (JStr ''http://example.org'') 200 [''arial'', ''georgia''] [])\<rparr>,
      [Launch, NewContext 1366 768, AddInitScript, SetExtraHTTPHeaders, NewPage,
       Goto (JStr ''http://example.org'') networkidle 60000, EvaluateFonts, EvaluateImages, Close])"
  by (simp add: analyze_def example_body_def example_engine_def body_or_empty_def withPage_def
      bind_io_def engine_call_def analysis_pass_def safeGoto_def return_io_def example_fonts
      distorted_of_def)

section \<open>The numeric score\<close>

text \<open>
  Claim C1. The score of an analysis is
  \<open>max 50 (100 - 10 * distortedCount - 5 * max 0 (fontCount - 3))\<close>, so it lies between 50
  and 100; no distorted image and two families give 100, two distorted images and five
  families give 70. The same holds of the score in every analysis that \<^verbatim>\<open>/v1/analyze\<close>
  returns, where the counts are those of its \<open>meta\<close>.
\<close>

theorem analyze_score:
  "score (analysis v st fonts distorted)
     = max 50 (100 - 10 * int (length distorted) - 5 * max 0 (int (length fonts) - 3))
   \<and> 50 \<le> score (analysis v st fonts distorted)
   \<and> score (analysis v st fonts distorted) \<le> 100
   \<and> (length distorted = 0 \<and> length fonts = 2 \<longrightarrow> score (analysis v st fonts distorted) = 100)
   \<and> (length distorted = 2 \<and> length fonts = 5 \<longrightarrow> score (analysis v st fonts distorted) = 70)
   \<and> (analyze E b tr = (rep, tr') \<and> payload rep = Analysis r \<longrightarrow>
        score r = max 50 (100 - 10 * int (distortedImages (meta r))
                              - 5 * max 0 (int (length (fontsDetected (meta r))) - 3))
        \<and> 50 \<le> score r \<and> score r \<le> 100)"
proof -
  have handler: "score r = max 50 (100 - 10 * int (distortedImages (meta r))
                              - 5 * max 0 (int (length (fontsDetected (meta r))) - 3))
        \<and> 50 \<le> score r \<and> score r \<le> 100"
    if "analyze E b tr = (rep, tr')" and "payload rep = Analysis r"
  proof -
    from that obtain v' st' t where
      r: "r = analysis v' st' (fonts_of (fontFamilies (document E t)))
                       (distorted_of (images (document E (Suc t))))"
      by (rule analyze_Analysis)
    show ?thesis unfolding r by (simp add: score_analysis meta_analysis)
  qed
  show ?thesis using handler by (auto simp: score_analysis)
qed

theorem analyze_score_witness:
  "score (analysis (JStr ''u'') 200 [''arial'', ''georgia''] []) = 100
   \<and> score (analysis (JStr ''u'') 200 [''a'', ''b'', ''c'', ''d'', ''e'']
        [\<lparr>src = ''x.png'', naturalAR = 1, renderAR = 2, deltaPct = 100\<rparr>,
         \<lparr>src = ''y.png'', naturalAR = 1, renderAR = 2, deltaPct = 100\<rparr>]) = 70
   \<and> (\<exists>rep tr' r. analyze example_engine example_body [] = (rep, tr')
        \<and> payload rep = Analysis r \<and> score r = 100)"
proof -
  have a: "score (analysis (JStr ''u'') 200 [''arial'', ''georgia''] []) = 100"
    using analyze_score [of "JStr ''u''" 200 "[''arial'', ''georgia'']" "[]"] by simp
  have b: "score (analysis (JStr ''u'') 200 [''a'', ''b'', ''c'', ''d'', ''e'']
        [\<lparr>src = ''x.png'', naturalAR = 1, renderAR = 2, deltaPct = 100\<rparr>,
         \<lparr>src = ''y.png'', naturalAR = 1, renderAR = 2, deltaPct = 100\<rparr>]) = 70"
    using analyze_score [of "JStr ''u''" 200 "[''a'', ''b'', ''c'', ''d'', ''e'']"
        "[\<lparr>src = ''x.png'', naturalAR = 1, renderAR = 2, deltaPct = 100\<rparr>,
         \<lparr>src = ''y.png'', naturalAR = 1, renderAR = 2, deltaPct = 100\<rparr>]"] by simp
  have c: "score (analysis (JStr ''http://example.org'') 200 [''arial'', ''georgia''] []) = 100"
    using analyze_score [of "JStr ''http://example.org''" 200 "[''arial'', ''georgia'']" "[]"
        example_engine example_body "[]" _ _
        "analysis (JStr ''http://example.org'') 200 [''arial'', ''georgia''] []"]
    by (simp add: example_analyze meta_analysis)
  show ?thesis using a b c by (simp add: example_analyze)
qed

section \<open>Category scores\<close>

lemma byCategory_analysis:
  "typography (byCategory (analysis v st fonts distorted)) = (if length fonts > 3 then 70 else 95)"
  "logos (byCategory (analysis v st fonts distorted)) = (if 1 \<le> length distorted then 65 else 95)"
  by (auto simp: analysis_def byCategory_of_def maxFamilies_def Suc_le_eq)

text \<open>
  Claim C7. The category scores are fixed tiers: typography is 70 when there are more
  than 3 font families and 95 otherwise; logos is 65 when there is at least one distorted
  image and 95 otherwise. Neither is computed from the numeric score. The same holds in
  every analysis that \<^verbatim>\<open>/v1/analyze\<close> returns.
\<close>

theorem category_tiers:
  "typography (byCategory (analysis v st fonts distorted))
     = (if length fonts > 3 then 70 else 95)
   \<and> logos (byCategory (analysis v st fonts distorted))
     = (if 1 \<le> length distorted then 65 else 95)
   \<and> (analyze E b tr = (rep, tr') \<and> payload rep = Analysis r \<longrightarrow>
        typography (byCategory r) = (if length (fontsDetected (meta r)) > 3 then 70 else 95)
        \<and> logos (byCategory r) = (if 1 \<le> distortedImages (meta r) then 65 else 95))"
proof -
  have handler:
    "typography (byCategory r) = (if length (fontsDetected (meta r)) > 3 then 70 else 95)
     \<and> logos (byCategory r) = (if 1 \<le> distortedImages (meta r) then 65 else 95)"
    if "analyze E b tr = (rep, tr')" and "payload rep = Analysis r"
  proof -
    from that obtain v' st' t where
      r: "r = analysis v' st' (fonts_of (fontFamilies (document E t)))
                       (distorted_of (images (document E (Suc t))))"
      by (rule analyze_Analysis)
    show ?thesis unfolding r by (simp only: byCategory_analysis meta_analysis simp_thms)
  qed
  show ?thesis using handler by (auto simp: byCategory_analysis)
qed

theorem category_tiers_witness:
  "typography (byCategory (analysis (JStr ''u'') 200 [''a'', ''b'', ''c'', ''d''] [])) = 70
   \<and> logos (byCategory (analysis (JStr ''u'') 200 [''a'', ''b'', ''c'', ''d''] [])) = 95
   \<and> (\<exists>rep tr' r. analyze example_engine example_body [] = (rep, tr')
        \<and> payload rep = Analysis r
        \<and> typography (byCategory r) = 95 \<and> logos (byCategory r) = 95)"
proof -
  have a: "typography (byCategory (analysis (JStr ''u'') 200 [''a'', ''b'', ''c'', ''d''] [])) = 70
   \<and> logos (byCategory (analysis (JStr ''u'') 200 [''a'', ''b'', ''c'', ''d''] [])) = 95"
    using category_tiers [of "JStr ''u''" 200 "[''a'', ''b'', ''c'', ''d'']" "[]"] by simp
  have c: "typography (byCategory (analysis (JStr ''http://example.org'') 200 [''arial'', ''georgia''] [])) = 95
    \<and> logos (byCategory (analysis (JStr ''http://example.org'') 200 [''arial'', ''georgia''] [])) = 95"
    using category_tiers [of "JStr ''http://example.org''" 200 "[''arial'', ''georgia'']" "[]"
        example_engine example_body "[]" _ _
        "analysis (JStr ''http://example.org'') 200 [''arial'', ''georgia''] []"]
    by (simp add: example_analyze meta_analysis)
  show ?thesis using a c by (simp add: example_analyze)
qed

section \<open>Input validation\<close>

text \<open>A falsy body is never an object, so \<^verbatim>\<open>req.body || {}\<close> does not change what is read.\<close>

lemma get_prop_body_or_empty: "get_prop k (body_or_empty b) = get_prop k b"
proof (cases b)
  case None
  then show ?thesis by (simp add: body_or_empty_def)
next
  case (Some j)
  then show ?thesis by (cases j) (simp_all add: body_or_empty_def)
qed



section \<open>The bearer-token gate\<close>

text \<open>
  Claim C4, as the code has it. In the second revision, with a non-empty \<^verbatim>\<open>API_KEY\<close>,
  every request that the two middlewares in front of the gate pass on (any method but
  \<^verbatim>\<open>OPTIONS\<close>, with a body that parses) and that lacks the header
  \<^verbatim>\<open>Authorization: Bearer <API_KEY>\<close> is answered 401 \<^verbatim>\<open>unauthorized\<close>, whatever its
  route, and no route runs. With the right header, or with \<^verbatim>\<open>API_KEY\<close> unset or empty,
  the request is handled as if there were no gate. A preflight is answered 204 and an
  unparsable body 400 before the gate, with or without the header. The third revision
  has no gate: it answers a health request 200 whatever the header.
\<close>

theorem bearer_gate:
  "(env_value = Some k \<and> k \<noteq> [] \<and> http_method req \<noteq> ''OPTIONS'' \<and> body_parse req = Parsed b
      \<and> authorization req \<noteq> Some (''Bearer '' @ k) \<longrightarrow>
      app_rev2 env_value routes req tr
        = (\<lparr>http_status = 401,
            payload = Failure ''unauthorized'' ''Missing/invalid bearer token''\<rparr>, tr))
   \<and> (env_value = Some k \<and> authorization req = Some (''Bearer '' @ k) \<longrightarrow>
      app_rev2 env_value routes req tr = cors (express_json routes) req tr)
   \<and> (env_value = None \<or> env_value = Some [] \<longrightarrow>
      app_rev2 env_value routes req tr = cors (express_json routes) req tr)
   \<and> (http_method req = ''OPTIONS'' \<longrightarrow>
      app_rev2 env_value routes req tr = (\<lparr>http_status = 204, payload = NoContent\<rparr>, tr))
   \<and> (http_method req \<noteq> ''OPTIONS'' \<and> body_parse req = Malformed \<longrightarrow>
      app_rev2 env_value routes req tr
        = (\<lparr>http_status = 400, payload = FrameworkError ''entity.parse.failed''\<rparr>, tr))
   \<and> (http_method req \<noteq> ''OPTIONS'' \<and> body_parse req = Parsed b \<and> route req = HealthRoute \<longrightarrow>
      app_rev3 E req tr = (\<lparr>http_status = 200, payload = Health\<rparr>, tr))"
  by (auto simp: app_rev2_def app_rev3_def cors_def express_json_def auth_def API_KEY_def
      router_def health_def split: option.splits parse_result.splits)

text \<open>
  With \<^verbatim>\<open>API_KEY\<close> set and no header, a preflight to \<^verbatim>\<open>/v1/analyze\<close> is answered 204
  and a post with a malformed body 400, not 401.
\<close>

theorem preflight_bypasses_gate:
  "app_rev2 (Some ''s3cret'') (\<lambda>_. health)
       \<lparr>http_method = ''OPTIONS'', route = AnalyzeRoute, authorization = None,
        body_parse = Parsed None, body = None\<rparr> []
     = (\<lparr>http_status = 204, payload = NoContent\<rparr>, [])
   \<and> app_rev2 (Some ''s3cret'') (\<lambda>_. health)
       \<lparr>http_method = ''POST'', route = AnalyzeRoute, authorization = None,
        body_parse = Malformed, body = None\<rparr> []
     = (\<lparr>http_status = 400, payload = FrameworkError ''entity.parse.failed''\<rparr>, [])"
  by (simp add: app_rev2_def cors_def express_json_def)

theorem bearer_gate_witness:
  "app_rev2 (Some ''s3cret'') (\<lambda>_. health)
       \<lparr>http_method = ''GET'', route = HealthRoute, authorization = Some ''Bearer wrong'',
        body_parse = Parsed None, body = None\<rparr> []
     = (\<lparr>http_status = 401,
         payload = Failure ''unauthorized'' ''Missing/invalid bearer token''\<rparr>, [])
   \<and> app_rev2 (Some ''s3cret'') (\<lambda>_. health)
       \<lparr>http_method = ''GET'', route = HealthRoute, authorization = Some ''Bearer s3cret'',
        body_parse = Parsed None, body = None\<rparr> []
     = (\<lparr>http_status = 200, payload = Health\<rparr>, [])
   \<and> app_rev2 None (\<lambda>_. health)
       \<lparr>http_method = ''GET'', route = HealthRoute, authorization = None,
        body_parse = Parsed None, body = None\<rparr> []
     = (\<lparr>http_status = 200, payload = Health\<rparr>, [])
   \<and> app_rev3 example_engine
       \<lparr>http_method = ''GET'', route = HealthRoute, authorization = None,
        body_parse = Parsed None, body = None\<rparr> []
     = (\<lparr>http_status = 200, payload = Health\<rparr>, [])
   \<and> app_rev2 (Some ''s3cret'') (\<lambda>_. health)
       \<lparr>http_method = ''OPTIONS'', route = HealthRoute, authorization = None,
        body_parse = Parsed None, body = None\<rparr> []
     = (\<lparr>http_status = 204, payload = NoContent\<rparr>, [])
   \<and> app_rev2 (Some ''s3cret'') (\<lambda>_. health)
       \<lparr>http_method = ''POST'', route = ScreenshotRoute, authorization = None,
        body_parse = Malformed, body = None\<rparr> []
     = (\<lparr>http_status = 400, payload = FrameworkError ''entity.parse.failed''\<rparr>, [])"
  using
    bearer_gate [of "Some ''s3cret''" "''s3cret''"
      "\<lparr>http_method = ''GET'', route = HealthRoute, authorization = Some ''Bearer wrong'',
        body_parse = Parsed None, body = None\<rparr>" None "\<lambda>_. health" "[]" example_engine]
    bearer_gate [of "Some ''s3cret''" "''s3cret''"
      "\<lparr>http_method = ''GET'', route = HealthRoute, authorization = Some ''Bearer s3cret'',
        body_parse = Parsed None, body = None\<rparr>" None "\<lambda>_. health" "[]" example_engine]
    bearer_gate [of None "''s3cret''"
      "\<lparr>http_method = ''GET'', route = HealthRoute, authorization = None,
        body_parse = Parsed None, body = None\<rparr>" None "\<lambda>_. health" "[]" example_engine]
    bearer_gate [of "Some ''s3cret''" "''s3cret''"
      "\<lparr>http_method = ''OPTIONS'', route = HealthRoute, authorization = None,
        body_parse = Parsed None, body = None\<rparr>" None "\<lambda>_. health" "[]" example_engine]
    bearer_gate [of "Some ''s3cret''" "''s3cret''"
      "\<lparr>http_method = ''POST'', route = ScreenshotRoute, authorization = None,
        body_parse = Malformed, body = None\<rparr>" None "\<lambda>_. health" "[]" example_engine]
  by (simp add: cors_def express_json_def health_def)

section \<open>Distorted images\<close>

lemma distorted_at_filter: "distorted_at th imgs = map report (filter (flagged th) imgs)"
  by (induction imgs) (simp_all add: flagged_def)

lemma rne_nonneg: "0 \<le> q \<Longrightarrow> 0 \<le> rne q"
  by (auto simp: rne_def Let_def)

lemma scale2_nonneg: "0 \<le> x \<Longrightarrow> 0 \<le> scale2 k x"
  by (simp add: scale2_def)

lemma fl_nonneg: "0 \<le> x \<Longrightarrow> 0 \<le> fl x"
  by (simp add: fl_def scale2_nonneg rne_nonneg)

lemma delta_nonneg: "0 \<le> delta i"
  unfolding delta_def natAR_def by (intro fl_nonneg divide_nonneg_nonneg) simp_all

lemma flagged_mono: "t1 \<le> t2 \<Longrightarrow> flagged t2 i \<Longrightarrow> flagged t1 i"
  by (simp add: flagged_def)

lemma flagged_below_zero: "th < 0 \<Longrightarrow> flagged th i = measured i"
  using delta_nonneg [of i] by (auto simp: flagged_def)

lemma subseq_filter_mono:
  "(\<And>x. P x \<Longrightarrow> Q x) \<Longrightarrow> subseq (filter P xs) (filter Q xs)"
  by (induction xs) auto

text \<open>Some doubles, and some integer parts, computed once.\<close>

lemma fl_values:
  "fl 0 = 0"
  "fl 1 = 1"
  "fl 2 = 2"
  "fl (3 / 100) = 1080863910568919 / 36028797018963968"
  "fl (103 / 100) = 4638707616191611 / 4503599627370496"
  "fl (135107988821115 / 4503599627370496) = 135107988821115 / 4503599627370496"
  "fl (413 / 400) = 4649966615260037 / 4503599627370496"
  "fl (146366987889541 / 4503599627370496) = 146366987889541 / 4503599627370496"
  "fl (3659174697238525 / 1125899906842624) = 3659174697238525 / 1125899906842624"
  by code_simp+

lemma floor_values:
  "\<lfloor>2001 / 2 :: rat\<rfloor> = 1000"
  "\<lfloor>581527301884215281 / 562949953421312 :: rat\<rfloor> = 1032"
  "\<lfloor>18577348462903281 / 562949953421312 :: rat\<rfloor> = 32"
  by code_simp+

text \<open>
  The doubles matter at the edge. An image of 100 by 100 shown at 103 by 100 has the
  double delta 0.030000000000000027, above the double 0.03, and is flagged; an image
  of 400 by 400 shown at 413 by 400 is reported with the ratio 1.032 and 3.2 percent,
  since the double nearest to 1.0325 lies below it.
\<close>

lemma three_percent_is_flagged:
  "flagged THRESHOLD
     \<lparr>naturalWidth = 100, naturalHeight = 100, clientWidth = 103, clientHeight = 100,
      currentSrc = [], img_src = ''a.png''\<rparr>"
  by (simp add: flagged_def measured_def delta_def natAR_def rendAR_def THRESHOLD_def fl_values)

lemma report_rounds_the_double:
  "report \<lparr>naturalWidth = 400, naturalHeight = 400, clientWidth = 413, clientHeight = 400,
           currentSrc = [], img_src = ''a.png''\<rparr>
     = \<lparr>src = ''a.png'', naturalAR = 1, renderAR = fl (1032 / 1000), deltaPct = fl (32 / 10)\<rparr>"
  by (simp add: report_def toFixed_def delta_def natAR_def rendAR_def fl_values floor_values)

text \<open>
  Claim C6. Flagging is monotone in the threshold: the images flagged at a threshold are
  flagged at every lower one, and the reports at the higher threshold are a subsequence of
  those at the lower. Below 0 every image with its four measurements known is flagged; at
  1 or above no image whose delta is at most 1 (100 percent) is flagged. In all cases the
  reports are those of the flagged images, in page order.
\<close>

theorem distortion_monotone:
  "(t1 \<le> t2 \<longrightarrow>
      subseq (distorted_at t2 imgs) (distorted_at t1 imgs)
      \<and> (\<forall>i \<in> set imgs. flagged t2 i \<longrightarrow> flagged t1 i))
   \<and> (th < 0 \<longrightarrow>
      distorted_at th imgs = map report (filter measured imgs)
      \<and> (\<forall>i \<in> set imgs. measured i \<longrightarrow> flagged th i))
   \<and> (1 \<le> th \<longrightarrow>
      (\<forall>i \<in> set imgs. delta i \<le> 1 \<longrightarrow> \<not> flagged th i)
      \<and> distorted_at th (filter (\<lambda>i. delta i \<le> 1) imgs) = [])
   \<and> distorted_at th imgs = map report (filter (flagged th) imgs)"
proof -
  have mono: "subseq (distorted_at t2 imgs) (distorted_at t1 imgs)" if "t1 \<le> t2"
    unfolding distorted_at_filter
    by (intro subseq_map subseq_filter_mono) (rule flagged_mono [OF that])
  have below: "distorted_at th imgs = map report (filter measured imgs)" if "th < 0"
  proof -
    have "flagged th = measured"
      using that by (simp add: fun_eq_iff flagged_below_zero)
    then show ?thesis by (simp add: distorted_at_filter)
  qed
  have above: "distorted_at th (filter (\<lambda>i. delta i \<le> 1) imgs) = []" if "1 \<le> th"
    unfolding distorted_at_filter using that by (auto simp: flagged_def filter_empty_conv)
  show ?thesis
    using mono below above
    by (auto simp: flagged_below_zero distorted_at_filter intro: flagged_mono)
       (auto simp: flagged_def)
qed

lemma example_flagged:
  "length (filter (flagged (3 / 100)) example_images) = 1"
  "length (filter (flagged (- 1)) example_images) = 2"
  "length (filter measured example_images) = 2"
  by (simp_all add: example_images_def flagged_def measured_def delta_def natAR_def rendAR_def
      fl_values)

theorem distortion_monotone_witness:
  "(- 1 :: rat) \<le> 3 / 100
   \<and> subseq (distorted_at (3 / 100) example_images) (distorted_at (- 1) example_images)
   \<and> length (distorted_at (3 / 100) example_images) = 1
   \<and> length (distorted_at (- 1) example_images) = 2
   \<and> distorted_at (- 1) example_images = map report (filter measured example_images)
   \<and> distorted_at 1 (filter (\<lambda>i. delta i \<le> 1) example_images) = []"
  using distortion_monotone [of "- 1" "3 / 100" example_images "- 1"]
    distortion_monotone [of "- 1" "3 / 100" example_images "3 / 100"]
    distortion_monotone [of "- 1" "3 / 100" example_images "1"]
  by (simp add: example_flagged distorted_at_filter)

section \<open>Normalisation of font families\<close>

lemma lower_char_idem: "lower_char (lower_char c) = lower_char c"
  by (auto simp: lower_char_def Let_def)

lemma lower_char_comma: "lower_char c = CHR '','' \<longleftrightarrow> c = CHR '',''"
proof -
  have "(of_char (lower_char c) :: nat) = 44 \<longleftrightarrow> (of_char c :: nat) = 44"
    by (auto simp: lower_char_def Let_def)
  moreover have "(of_char (CHR '','') :: nat) = 44" by simp
  ultimately show ?thesis by (metis of_char_eq_iff)
qed

lemma set_trim: "set (trim s) \<subseteq> set s"
  by (auto simp: trim_def dest!: set_dropWhileD)

lemma set_strip_quotes: "set (strip_quotes s) \<subseteq> set s"
  by (auto simp: strip_quotes_def Let_def split: list.splits if_splits dest: in_set_butlastD)

lemma no_comma_first_token: "CHR '','' \<notin> set (first_token s)"
  unfolding first_token_def by (auto dest: set_takeWhileD)

lemma first_token_id: "CHR '','' \<notin> set n \<Longrightarrow> first_token n = n"
  by (auto simp: first_token_def)

lemma trim_id:
  assumes "n \<noteq> []" "\<not> is_space (hd n)" "\<not> is_space (last n)"
  shows "trim n = n"
proof -
  have "dropWhile is_space n = n"
    using assms by (cases n) simp_all
  moreover have "dropWhile is_space (rev n) = rev n"
    using assms by (cases "rev n") (simp_all add: last_rev [symmetric] hd_rev)
  ultimately show ?thesis by (simp add: trim_def)
qed

lemma strip_quotes_id:
  assumes "n \<noteq> []" "\<not> is_quote (hd n)" "\<not> is_quote (last n)"
  shows "strip_quotes n = n"
  using assms by (cases n) (simp_all add: strip_quotes_def)

lemma length_trim: "length (trim s) \<le> length s"
  unfolding trim_def
  by (metis length_dropWhile_le length_rev order_trans)

lemma length_strip_quotes: "length (strip_quotes s) \<le> length s"
  by (auto simp: strip_quotes_def Let_def split: list.splits)

lemma length_first_token: "length (first_token s) \<le> length s"
  by (simp add: first_token_def length_takeWhile_le)

lemma first_token_same_length:
  assumes "length (first_token x) = length x"
  shows "first_token x = x"
proof -
  let ?P = "\<lambda>c. c \<noteq> CHR '',''"
  have "length (takeWhile ?P x) + length (dropWhile ?P x) = length x"
    by (metis length_append takeWhile_dropWhile_id)
  with assms have "dropWhile ?P x = []"
    by (simp add: first_token_def)
  then show ?thesis
    by (metis append_Nil2 first_token_def takeWhile_dropWhile_id)
qed

lemma dropWhile_shorter: "x \<noteq> [] \<Longrightarrow> P (hd x) \<Longrightarrow> length (dropWhile P x) < length x"
  by (cases x) (simp_all add: le_imp_less_Suc length_dropWhile_le)

lemma trim_same_length:
  assumes "length (trim x) = length x" and "x \<noteq> []"
  shows "\<not> is_space (hd x) \<and> \<not> is_space (last x)"
proof -
  have le: "length (trim x) \<le> length (dropWhile is_space x)"
    using length_dropWhile_le [of is_space "rev (dropWhile is_space x)"]
    by (simp add: trim_def)
  have 1: "\<not> is_space (hd x)"
    using dropWhile_shorter [of x is_space] assms le by force
  then have d: "dropWhile is_space x = x"
    using assms(2) by (cases x) simp_all
  have 2: "\<not> is_space (last x)"
    using dropWhile_shorter [of "rev x" is_space] assms d
    by (auto simp: trim_def hd_rev)
  show ?thesis using 1 2 by simp
qed

lemma strip_quotes_same_length:
  assumes "length (strip_quotes x) = length x" and "x \<noteq> []"
  shows "\<not> is_quote (hd x) \<and> \<not> is_quote (last x)"
proof (cases x)
  case Nil
  with assms show ?thesis by simp
next
  case (Cons c cs)
  have "length (strip_quotes (c # cs)) < length (c # cs)" if "is_quote c"
    using that by (auto simp: strip_quotes_def Let_def)
  with assms Cons have 1: "\<not> is_quote c" by auto
  have "length (strip_quotes (c # cs)) < length (c # cs)" if "is_quote (last (c # cs))"
    using that 1 by (auto simp: strip_quotes_def Let_def)
  with assms Cons have 2: "\<not> is_quote (last (c # cs))" by auto
  show ?thesis using 1 2 Cons by simp
qed

text \<open>
  Claim C5, as the code has it. Normalisation is not idempotent on every string: a name
  that still begins or ends with a space or a quote after one pass changes again. Let
  \<open>n\<close> be the normalised name of any string. Normalising \<open>n\<close> returns \<open>n\<close> exactly when
  \<open>n\<close> is not empty and neither begins nor ends with a whitespace or quote character.
\<close>

theorem normalize_fixed_point:
  assumes "normalize s = Some n"
  shows "normalize n = Some n
           \<longleftrightarrow> n \<noteq> [] \<and> \<not> edge_char (hd n) \<and> \<not> edge_char (last n)"
proof
  assume fp: "normalize n = Some n"
  then have ne: "n \<noteq> []"
    by (auto simp: normalize_def split: if_splits)
  let ?a = "first_token n" and ?b = "trim (first_token n)"
  let ?c = "strip_quotes (trim (first_token n))"
  from fp ne have eq: "map lower_char ?c = n"
    by (simp add: normalize_def toLowerCase_def)
  then have len: "length ?c = length n"
    by (metis length_map)
  have l1: "length ?c \<le> length ?b" and l2: "length ?b \<le> length ?a"
    and l3: "length ?a \<le> length n"
    by (rule length_strip_quotes, rule length_trim, rule length_first_token)
  from len l1 l2 l3 have la: "length ?a = length n" and lb: "length ?b = length ?a"
    and lc: "length ?c = length ?b"
    by linarith+
  have a: "?a = n"
    using la by (rule first_token_same_length)
  have sp: "\<not> is_space (hd n) \<and> \<not> is_space (last n)"
    using lb ne unfolding a by (rule trim_same_length)
  then have b: "trim n = n"
    using ne by (simp add: trim_id)
  have qu: "\<not> is_quote (hd n) \<and> \<not> is_quote (last n)"
    using lc ne unfolding a b by (rule strip_quotes_same_length)
  show "n \<noteq> [] \<and> \<not> edge_char (hd n) \<and> \<not> edge_char (last n)"
    using ne sp qu by (simp add: edge_char_def)
next
  assume good: "n \<noteq> [] \<and> \<not> edge_char (hd n) \<and> \<not> edge_char (last n)"
  from assms obtain t where n: "n = map lower_char t"
    and t: "t = strip_quotes (trim (first_token s))"
    by (auto simp: normalize_def toLowerCase_def split: if_splits)
  have "CHR '','' \<notin> set t"
    unfolding t using set_strip_quotes set_trim no_comma_first_token by blast
  then have "CHR '','' \<notin> set n"
    unfolding n by (metis (no_types, lifting) imageE lower_char_comma set_map)
  then have 1: "first_token n = n"
    by (rule first_token_id)
  have 2: "trim n = n" and 3: "strip_quotes n = n"
    using good by (simp_all add: trim_id strip_quotes_id edge_char_def)
  have 4: "toLowerCase n = n"
    unfolding n by (simp add: toLowerCase_def lower_char_idem)
  show "normalize n = Some n"
    using good by (simp add: normalize_def 1 2 3 4)
qed

text \<open>
  The computed family \<^verbatim>\<open>" Arial ", serif\<close> (padding inside the quotes) normalises to
  \<^verbatim>\<open>arial\<close> between two spaces, and that name normalises to \<^verbatim>\<open>arial\<close>.
\<close>

theorem normalize_not_idempotent:
  "normalize ([CHR 0x22] @ '' Arial '' @ [CHR 0x22] @ '', serif'') = Some '' arial ''
   \<and> normalize '' arial '' = Some ''arial''
   \<and> normalize '' arial '' \<noteq> Some '' arial ''"
  by (simp add: normalize_def first_token_def trim_def strip_quotes_def
      toLowerCase_def lower_char_def is_space_def is_quote_def char_of_def bit_iff_odd)

theorem normalize_fixed_point_witness:
  "normalize ''Arial, sans-serif'' = Some ''arial''
   \<and> normalize ''arial'' = Some ''arial''
   \<and> ''arial'' \<noteq> [] \<and> \<not> edge_char (hd ''arial'') \<and> \<not> edge_char (last ''arial'')"
proof -
  have n: "normalize ''Arial, sans-serif'' = Some ''arial''"
    by (simp add: normalize_def first_token_def trim_def strip_quotes_def
      toLowerCase_def lower_char_def is_space_def is_quote_def char_of_def bit_iff_odd)
  have e: "''arial'' \<noteq> [] \<and> \<not> edge_char (hd ''arial'') \<and> \<not> edge_char (last ''arial'')"
    by (simp add: edge_char_def is_space_def is_quote_def)
  show ?thesis
    using normalize_fixed_point [OF n] n e by simp
qed

section \<open>Navigation\<close>

lemma is_navigation_error_navigation_error: "is_navigation_error (navigation_error s)"
  by (simp add: is_navigation_error_def navigation_error_def suffix_def)

lemma decimal_404: "decimal 404 = ''404''"
  by (simp add: decimal.simps char_of_def bit_iff_odd)

text \<open>
  Claim C2, as the code has it. \<^verbatim>\<open>safeGoto\<close> first navigates waiting for network idleness
  with a timeout of 60000 ms. If that call returns an ok response, it is the result and
  nothing else is called. Otherwise (the call threw, or returned \<^verbatim>\<open>null\<close> or a non-ok
  response) exactly one more navigation is made, waiting for \<^verbatim>\<open>domcontentloaded\<close>
  with the same timeout. An ok response of the second call is the result; \<^verbatim>\<open>null\<close>
  or a non-ok response raises the navigation error, whose message carries the status of
  that second response, or \<^verbatim>\<open>desconocido\<close> (unknown) for \<^verbatim>\<open>null\<close>; an exception of
  the second call is not caught and propagates as it is.
\<close>

theorem safeGoto_ladder:
  "(throws E (length tr) = None \<and> goto_response E (length tr) = Some r1 \<and> ok r1 \<longrightarrow>
      safeGoto E url tr = (Inr r1, tr @ [Goto url networkidle 60000]))
   \<and> (\<not> (throws E (length tr) = None
          \<and> (\<exists>r1. goto_response E (length tr) = Some r1 \<and> ok r1)) \<longrightarrow>
      snd (safeGoto E url tr)
        = tr @ [Goto url networkidle 60000, Goto url domcontentloaded 60000]
      \<and> fst (safeGoto E url tr)
        = (case throws E (Suc (length tr)) of
             Some e \<Rightarrow> Inl e
           | None \<Rightarrow>
               (case goto_response E (Suc (length tr)) of
                  None \<Rightarrow> Inl (navigation_error ''desconocido'')
                | Some r2 \<Rightarrow>
                    if ok r2 then Inr r2
                    else Inl (navigation_error (decimal (status r2))))))"
  by (auto simp: safeGoto_def engine_call_def Let_def split: option.splits)

theorem safeGoto_propagates_engine_error:
  "fst (safeGoto timeout_engine (JStr ''http://example.org'') []) = Inl timeout_error
   \<and> \<not> is_navigation_error timeout_error"
  by (simp add: safeGoto_def engine_call_def timeout_engine_def example_engine_def
      is_navigation_error_def timeout_error_def)

theorem safeGoto_ladder_witness:
  "safeGoto example_engine (JStr ''http://example.org'') []
     = (Inr \<lparr>status = 200, ok = True\<rparr>, [Goto (JStr ''http://example.org'') networkidle 60000])
   \<and> safeGoto not_found_engine (JStr ''http://example.org'') []
     = (Inl (navigation_error ''404''),
        [Goto (JStr ''http://example.org'') networkidle 60000,
         Goto (JStr ''http://example.org'') domcontentloaded 60000])
   \<and> is_navigation_error (navigation_error ''404'')"
proof -
  have 1: "safeGoto example_engine (JStr ''http://example.org'') []
     = (Inr \<lparr>status = 200, ok = True\<rparr>, [Goto (JStr ''http://example.org'') networkidle 60000])"
    using safeGoto_ladder [of example_engine "[]" "\<lparr>status = 200, ok = True\<rparr>" "JStr ''http://example.org''"]
    by (simp add: example_engine_def)
  have 2: "safeGoto not_found_engine (JStr ''http://example.org'') []
     = (Inl (navigation_error ''404''),
        [Goto (JStr ''http://example.org'') networkidle 60000,
         Goto (JStr ''http://example.org'') domcontentloaded 60000])"
    using safeGoto_ladder [of not_found_engine "[]" _ "JStr ''http://example.org''"]
    by (simp add: not_found_engine_def example_engine_def decimal_404 prod_eq_iff)
  show ?thesis using 1 2 by (simp add: is_navigation_error_navigation_error)
qed

section \<open>Sessions\<close>

lemma acquired_from_append:
  "acquired_from E t (xs @ ys) = acquired_from E t xs + acquired_from E (t + length xs) ys"
  by (induction xs arbitrary: t) simp_all

lemma acquired_from_none: "NewPage \<notin> set evs \<Longrightarrow> acquired_from E t evs = 0"
  by (induction evs arbitrary: t) auto

lemma acquired_append:
  "acquired E (tr @ evs) = acquired E tr + acquired_from E (length tr) evs"
  by (simp add: acquired_def acquired_from_append)

lemma released_append: "released (tr @ evs) = released tr + released evs"
  by (simp add: released_def)

lemma released_none: "Close \<notin> set evs \<Longrightarrow> released evs = 0"
  by (simp add: released_def count_list_0_iff)

lemma withPage_acquired:
  assumes "setup_succeeds E (length tr)"
  shows "withPage E fn tr =
     (case fn (tr @ setup_events) of (r, tr1) \<Rightarrow>
        (case throws E (length tr1) of
           Some e \<Rightarrow> (Inl e, tr1 @ [Close])
         | None \<Rightarrow> (r, tr1 @ [Close])))"
  using assms
  by (simp add: withPage_def setup_succeeds_def setup_events_def bind_io_def engine_call_def
      split: prod.splits option.splits)

lemma withPage_not_acquired:
  assumes "\<not> setup_succeeds E (length tr)"
  shows "\<exists>e evs. withPage E fn tr = (Inl e, tr @ evs)
           \<and> acquired_from E (length tr) evs = 0 \<and> released evs = 0"
proof -
  let ?t = "length tr"
  consider "throws E ?t \<noteq> None"
    | "throws E ?t = None" "throws E (Suc ?t) \<noteq> None"
    | "throws E ?t = None" "throws E (Suc ?t) = None" "throws E (Suc (Suc ?t)) \<noteq> None"
    | "throws E ?t = None" "throws E (Suc ?t) = None" "throws E (Suc (Suc ?t)) = None"
      "throws E (Suc (Suc (Suc ?t))) \<noteq> None"
    | "throws E ?t = None" "throws E (Suc ?t) = None" "throws E (Suc (Suc ?t)) = None"
      "throws E (Suc (Suc (Suc ?t))) = None" "throws E (Suc (Suc (Suc (Suc ?t)))) \<noteq> None"
    using assms by (auto simp: setup_succeeds_def)
  then show ?thesis
  proof cases
    case 1
    then show ?thesis
      by (intro exI [of _ "[Launch]"] exI [of _ "the (throws E ?t)"])
         (auto simp: withPage_def bind_io_def engine_call_def released_def)
  next
    case 2
    then show ?thesis
      by (intro exI [of _ "take 2 setup_events"] exI [of _ "the (throws E (Suc ?t))"])
         (auto simp: withPage_def bind_io_def engine_call_def released_def setup_events_def)
  next
    case 3
    then show ?thesis
      by (intro exI [of _ "take 3 setup_events"] exI [of _ "the (throws E (Suc (Suc ?t)))"])
         (auto simp: withPage_def bind_io_def engine_call_def released_def setup_events_def)
  next
    case 4
    then show ?thesis
      by (intro exI [of _ "take 4 setup_events"] exI [of _ "the (throws E (Suc (Suc (Suc ?t))))"])
         (auto simp: withPage_def bind_io_def engine_call_def released_def setup_events_def)
  next
    case 5
    then show ?thesis
      by (intro exI [of _ "setup_events"] exI [of _ "the (throws E (Suc (Suc (Suc (Suc ?t)))))"])
         (auto simp: withPage_def bind_io_def engine_call_def released_def setup_events_def)
  qed
qed

lemma page_only_engine_call:
  "ev \<noteq> NewPage \<Longrightarrow> ev \<noteq> Close \<Longrightarrow> page_only (engine_call E ev res)"
  by (auto simp: page_only_def engine_call_def split: option.splits)

lemma page_only_return_io: "page_only (return_io x)"
  by (simp add: page_only_def return_io_def)

lemma page_only_bind_io:
  assumes "page_only m" and "\<And>x. page_only (f x)"
  shows "page_only (bind_io m f)"
  unfolding page_only_def
proof
  fix tr
  from assms(1) obtain evs where m: "snd (m tr) = tr @ evs" "NewPage \<notin> set evs" "Close \<notin> set evs"
    by (auto simp: page_only_def)
  show "\<exists>evs. snd (bind_io m f tr) = tr @ evs \<and> NewPage \<notin> set evs \<and> Close \<notin> set evs"
  proof (cases "m tr")
    case (Pair r tr1)
    with m have tr1: "tr1 = tr @ evs" by simp
    show ?thesis
    proof (cases r)
      case (Inl e)
      with Pair m show ?thesis by (auto simp: bind_io_def)
    next
      case (Inr x)
      from assms(2) [of x] obtain evs' where
        f: "snd (f x tr1) = tr1 @ evs'" "NewPage \<notin> set evs'" "Close \<notin> set evs'"
        by (auto simp: page_only_def)
      have "snd (bind_io m f tr) = tr @ (evs @ evs')"
        using Pair Inr f tr1 by (simp add: bind_io_def)
      with m f show ?thesis by (intro exI [of _ "evs @ evs'"]) simp
    qed
  qed
qed

lemma page_only_safeGoto: "page_only (safeGoto E url)"
  unfolding page_only_def
proof
  fix tr
  have "snd (safeGoto E url tr) = tr @ [Goto url networkidle 60000]
        \<or> snd (safeGoto E url tr) = tr @ [Goto url networkidle 60000, Goto url domcontentloaded 60000]"
    by (auto simp: safeGoto_def engine_call_def Let_def split: option.splits)
  then show "\<exists>evs. snd (safeGoto E url tr) = tr @ evs \<and> NewPage \<notin> set evs \<and> Close \<notin> set evs"
    by auto
qed

lemma page_only_analysis_pass: "page_only (analysis_pass E v)"
  unfolding analysis_pass_def
  by (intro page_only_bind_io page_only_safeGoto page_only_engine_call page_only_return_io) simp_all

lemma page_only_fallback_pass: "page_only (fallback_pass E v)"
  unfolding fallback_pass_def
  by (intro page_only_bind_io page_only_safeGoto page_only_engine_call page_only_return_io) simp_all

lemma page_only_screenshot_pass: "page_only (screenshot_pass E url fullPage type quality width height)"
  unfolding screenshot_pass_def
  by (intro page_only_bind_io page_only_safeGoto page_only_engine_call page_only_return_io) simp_all

lemma withPage_balance:
  assumes "page_only fn"
  shows "acquired E (snd (withPage E fn tr)) + released tr
           = released (snd (withPage E fn tr)) + acquired E tr"
proof (cases "setup_succeeds E (length tr)")
  case True
  from assms obtain evs where
    fn: "snd (fn (tr @ setup_events)) = (tr @ setup_events) @ evs"
      "NewPage \<notin> set evs" "Close \<notin> set evs"
    unfolding page_only_def by blast
  have tr': "snd (withPage E fn tr) = tr @ setup_events @ evs @ [Close]"
    using fn(1) by (auto simp: withPage_acquired [OF True] split: prod.splits option.splits)
  have "acquired_from E (length tr) (setup_events @ evs @ [Close]) = 1"
    using True fn(2)
    by (simp add: acquired_from_append acquired_from_none)
       (simp add: setup_events_def setup_succeeds_def)
  moreover have "released (setup_events @ evs @ [Close]) = 1"
    using fn(3) by (simp add: released_append released_none) (simp add: released_def setup_events_def)
  ultimately show ?thesis
    unfolding tr' by (simp add: acquired_append released_append)
next
  case False
  from withPage_not_acquired [OF False, of fn] obtain e evs where
    "withPage E fn tr = (Inl e, tr @ evs)" "acquired_from E (length tr) evs = 0" "released evs = 0"
    by blast
  then show ?thesis
    by (simp add: acquired_append released_append)
qed

lemma analyze_trace:
  "snd (analyze E b tr) =
     (case get_prop ''value'' (get_prop ''target'' b) of
        None \<Rightarrow> tr
      | Some v \<Rightarrow>
          if \<not> truthy (Some v) then tr
          else (case withPage E (analysis_pass E v) tr of
                  (Inr out, tr1) \<Rightarrow> tr1
                | (Inl e, tr1) \<Rightarrow> snd (withPage E (fallback_pass E v) tr1)))"
  by (simp add: analyze_def get_prop_body_or_empty Let_def
      split: option.splits prod.splits sum.splits)

lemma analyze_balance:
  "acquired E (snd (analyze E b tr)) + released tr = released (snd (analyze E b tr)) + acquired E tr"
proof (cases "get_prop ''value'' (get_prop ''target'' b)")
  case None
  then show ?thesis by (simp add: analyze_trace)
next
  case (Some v)
  show ?thesis
  proof (cases "truthy (Some v)")
    case False
    with Some show ?thesis by (simp add: analyze_trace)
  next
    case True
    obtain r1 tr1 where first: "withPage E (analysis_pass E v) tr = (r1, tr1)"
      by (cases "withPage E (analysis_pass E v) tr")
    have one: "acquired E tr1 + released tr = released tr1 + acquired E tr"
      using withPage_balance [OF page_only_analysis_pass, of E E v tr] first by simp
    show ?thesis
    proof (cases r1)
      case (Inr out)
      with Some True first one show ?thesis by (simp add: analyze_trace)
    next
      case (Inl e)
      have two: "acquired E (snd (withPage E (fallback_pass E v) tr1)) + released tr1
           = released (snd (withPage E (fallback_pass E v) tr1)) + acquired E tr1"
        by (rule withPage_balance [OF page_only_fallback_pass])
      have "snd (analyze E b tr) = snd (withPage E (fallback_pass E v) tr1)"
        using Some True first Inl by (simp add: analyze_trace)
      with one two show ?thesis by simp
    qed
  qed
qed

lemma screenshot_balance:
  "acquired E (snd (screenshot E b tr)) + released tr
     = released (snd (screenshot E b tr)) + acquired E tr"
proof (cases "get_prop ''url'' b")
  case None
  then show ?thesis by (simp add: screenshot_def get_prop_body_or_empty Let_def)
next
  case (Some url)
  show ?thesis
  proof (cases "truthy (Some url)")
    case False
    with Some show ?thesis by (simp add: screenshot_def get_prop_body_or_empty Let_def)
  next
    case True
    define fn where "fn = screenshot_pass E url
        (with_default (JBool False) (get_prop ''fullPage'' b))
        (with_default (JStr ''jpeg'') (get_prop ''type'' b))
        (with_default (JNum 60) (get_prop ''quality'' b))
        (with_default (JNum 1280) (get_prop ''width'' b))
        (with_default (JNum 1000) (get_prop ''height'' b))"
    have "page_only fn"
      unfolding fn_def by (rule page_only_screenshot_pass)
    then have bal: "acquired E (snd (withPage E fn tr)) + released tr
           = released (snd (withPage E fn tr)) + acquired E tr"
      by (rule withPage_balance)
    have "snd (screenshot E b tr) = snd (withPage E fn tr)"
      using Some True
      by (simp add: screenshot_def get_prop_body_or_empty Let_def fn_def
          split: prod.splits sum.splits)
    with bal show ?thesis by simp
  qed
qed

text \<open>
  What the \<^verbatim>\<open>finally\<close> block does guarantee. Once the five set-up calls have returned,
  the wrapped computation runs and \<^verbatim>\<open>browser.close()\<close> is the next and last call,
  whether the computation returned or threw. When a set-up call throws, the computation
  does not run and nothing is closed. Sessions whose set-up completed and calls of
  \<^verbatim>\<open>browser.close()\<close> are equal in number in every run of both handlers.
\<close>

lemma withPage_releases:
  "(setup_succeeds E (length tr) \<longrightarrow>
      snd (withPage E fn tr) = snd (fn (tr @ setup_events)) @ [Close]
      \<and> (throws E (length (snd (fn (tr @ setup_events)))) = None \<longrightarrow>
           fst (withPage E fn tr) = fst (fn (tr @ setup_events))))
   \<and> (\<not> setup_succeeds E (length tr) \<longrightarrow>
      (\<exists>e evs. withPage E fn tr = (Inl e, tr @ evs)
         \<and> acquired_from E (length tr) evs = 0 \<and> released evs = 0))
   \<and> (page_only fn \<longrightarrow>
      acquired E (snd (withPage E fn tr)) + released tr
        = released (snd (withPage E fn tr)) + acquired E tr)
   \<and> acquired E (snd (analyze E b [])) = released (snd (analyze E b []))
   \<and> acquired E (snd (screenshot E b [])) = released (snd (screenshot E b []))"
proof -
  have 1: "snd (withPage E fn tr) = snd (fn (tr @ setup_events)) @ [Close]
      \<and> (throws E (length (snd (fn (tr @ setup_events)))) = None \<longrightarrow>
           fst (withPage E fn tr) = fst (fn (tr @ setup_events)))"
    if "setup_succeeds E (length tr)"
    by (auto simp: withPage_acquired [OF that] split: prod.splits option.splits)
  have 2: "acquired E (snd (analyze E b [])) = released (snd (analyze E b []))"
    using analyze_balance [of E b "[]"] by (simp add: acquired_def released_def)
  have 3: "acquired E (snd (screenshot E b [])) = released (snd (screenshot E b []))"
    using screenshot_balance [of E b "[]"] by (simp add: acquired_def released_def)
  show ?thesis
    using 1 2 3 withPage_not_acquired [of E tr fn] withPage_balance [of fn E tr]
    by blast
qed

lemma blocked_analysis_pass:
  "analysis_pass blocked_engine (JStr ''http://example.org'') setup_events
     = (Inl (Err ''Error'' ''page.evaluate: Execution context was destroyed''),
        setup_events @ [Goto (JStr ''http://example.org'') networkidle 60000, EvaluateFonts])"
  by (simp add: analysis_pass_def bind_io_def safeGoto_def engine_call_def blocked_engine_def
      example_engine_def setup_events_def)

lemma withPage_releases_example:
  "setup_succeeds blocked_engine (length ([] :: trace))
   \<and> withPage blocked_engine (analysis_pass blocked_engine (JStr ''http://example.org'')) []
       = (Inl (Err ''Error'' ''page.evaluate: Execution context was destroyed''),
          setup_events @ [Goto (JStr ''http://example.org'') networkidle 60000, EvaluateFonts, Close])
   \<and> \<not> setup_succeeds timeout_engine (length ([] :: trace))
   \<and> released (snd (withPage timeout_engine (analysis_pass timeout_engine JNull) [])) = 0
   \<and> page_only (analysis_pass blocked_engine (JStr ''http://example.org''))
   \<and> acquired blocked_engine
         (snd (withPage blocked_engine (analysis_pass blocked_engine (JStr ''http://example.org'')) []))
       = released
         (snd (withPage blocked_engine (analysis_pass blocked_engine (JStr ''http://example.org'')) []))"
proof -
  have s: "setup_succeeds blocked_engine (length ([] :: trace))"
    by (simp add: setup_succeeds_def blocked_engine_def)
  have n: "\<not> setup_succeeds timeout_engine (length ([] :: trace))"
    by (simp add: setup_succeeds_def timeout_engine_def)
  have p: "page_only (analysis_pass blocked_engine (JStr ''http://example.org''))"
    by (rule page_only_analysis_pass)
  have c: "throws blocked_engine
      (length (setup_events @ [Goto (JStr ''http://example.org'') networkidle 60000, EvaluateFonts]))
      = None"
    by (simp add: blocked_engine_def setup_events_def)
  have a: "withPage blocked_engine (analysis_pass blocked_engine (JStr ''http://example.org'')) []
       = (Inl (Err ''Error'' ''page.evaluate: Execution context was destroyed''),
          setup_events @ [Goto (JStr ''http://example.org'') networkidle 60000, EvaluateFonts, Close])"
    using withPage_releases [of blocked_engine "[]"
        "analysis_pass blocked_engine (JStr ''http://example.org'')"] s c
    by (simp add: blocked_analysis_pass prod_eq_iff)
  have b: "released (snd (withPage timeout_engine (analysis_pass timeout_engine JNull) [])) = 0"
  proof -
    from withPage_releases [of timeout_engine "[]" "analysis_pass timeout_engine JNull" None] n
    obtain e evs where
      "withPage timeout_engine (analysis_pass timeout_engine JNull) [] = (Inl e, [] @ evs)"
      and "released evs = 0"
      by blast
    then show ?thesis by simp
  qed
  have d: "acquired blocked_engine
         (snd (withPage blocked_engine (analysis_pass blocked_engine (JStr ''http://example.org'')) []))
       = released
         (snd (withPage blocked_engine (analysis_pass blocked_engine (JStr ''http://example.org'')) []))"
    using withPage_releases [of blocked_engine "[]"
        "analysis_pass blocked_engine (JStr ''http://example.org'')"] p
    by (simp add: acquired_def released_def)
  show ?thesis using s n p a b d by simp
qed

text \<open>
  Claim C9. Acquisition and release should be paired for every request, whatever its
  outcome. The browser is launched before the \<^verbatim>\<open>try\<close> block, and so are the calls that
  create the context and the page: when one of them throws, the launched browser is not
  closed. Here \<^verbatim>\<open>newContext\<close> throws in the analysis pass and again in the fallback of
  one \<^verbatim>\<open>/v1/analyze\<close> request: two browsers are launched and none is closed.
\<close>

theorem withPage_leaks_browser:
  "analyze context_fails_engine example_body []
     = (\<lparr>http_status = 500,
         payload = Failure ''analyze_failed'' ''browser.newContext: Target closed''\<rparr>,
        [Launch, NewContext 1366 768, Launch, NewContext 1366 768])
   \<and> launched context_fails_engine (snd (analyze context_fails_engine example_body [])) = 2
   \<and> released (snd (analyze context_fails_engine example_body [])) = 0"
proof -
  have run: "analyze context_fails_engine example_body []
     = (\<lparr>http_status = 500,
         payload = Failure ''analyze_failed'' ''browser.newContext: Target closed''\<rparr>,
        [Launch, NewContext 1366 768, Launch, NewContext 1366 768])"
    by (simp add: analyze_def example_body_def body_or_empty_def withPage_def bind_io_def
        engine_call_def context_fails_engine_def example_engine_def message_of_def)
  show ?thesis
    unfolding run
    by (simp add: launched_def released_def context_fails_engine_def example_engine_def)
qed

section \<open>The fallback of the analysis\<close>


lemma safeGoto_Inr:
  assumes "safeGoto E url tr = (Inr r, tr')"
  shows "tr' = tr @ [Goto url networkidle 60000]
         \<or> tr' = tr @ [Goto url networkidle 60000, Goto url domcontentloaded 60000]"
  using assms
  by (auto simp: safeGoto_def engine_call_def Let_def split: option.splits if_splits)


lemma withPage_Inr_acquired:
  assumes "withPage E fn tr = (Inr y, tr')"
  shows "setup_succeeds E (length tr)
         \<and> (\<exists>tr1. fn (tr @ setup_events) = (Inr y, tr1) \<and> tr' = tr1 @ [Close])"
proof (cases "setup_succeeds E (length tr)")
  case True
  with assms show ?thesis
    by (auto simp: withPage_acquired split: prod.splits option.splits)
next
  case False
  from withPage_not_acquired [OF False, of fn] assms show ?thesis by auto
qed









text \<open>
  The fallback navigates with the same \<^verbatim>\<open>safeGoto\<close>. On a page that answers every
  navigation with 404 the fallback fails as the analysis pass did, and the reply is 500.
\<close>

lemma analyze_always_404:
  "fst (analyze always_404_engine example_body [])
     = \<lparr>http_status = 500,
        payload = Failure ''analyze_failed'' ''No se pudo cargar la URL (status=404)''\<rparr>"
  by (simp add: analyze_def example_body_def body_or_empty_def withPage_def analysis_pass_def
      fallback_pass_def bind_io_def safeGoto_def engine_call_def always_404_engine_def
      example_engine_def decimal_404 navigation_error_def message_of_def)

section \<open>Findings\<close>

lemma filter_A1_findings_of:
  "filter (\<lambda>f. fid f = A1) (findings_of fonts ds) = map image_finding ds"
  by (induction ds) (auto simp: findings_of_def font_finding_def image_finding_def)

lemma filter_B1_findings_of:
  "filter (\<lambda>f. fid f = B1) (findings_of fonts ds)
     = (if length fonts > maxFamilies then [font_finding fonts] else [])"
proof -
  have "filter (\<lambda>f. fid f = B1) (map image_finding ds) = []"
    by (induction ds) (auto simp: image_finding_def)
  then show ?thesis
    by (simp add: findings_of_def font_finding_def)
qed

lemma findings_of_order:
  assumes "i < length (findings_of fonts ds)" and "j < length (findings_of fonts ds)"
    and "fid (findings_of fonts ds ! i) = B1" and "fid (findings_of fonts ds ! j) = A1"
  shows "i < j"
proof (cases "length fonts > maxFamilies")
  case True
  then have fs: "findings_of fonts ds = font_finding fonts # map image_finding ds"
    by (simp add: findings_of_def)
  have "i = 0"
  proof (rule ccontr)
    assume "i \<noteq> 0"
    then obtain k where "i = Suc k" by (cases i) auto
    with assms(1,3) fs show False by (simp add: image_finding_def)
  qed
  moreover have "j \<noteq> 0"
  proof
    assume "j = 0"
    with assms(4) fs show False by (simp add: font_finding_def)
  qed
  ultimately show ?thesis by simp
next
  case False
  then have "findings_of fonts ds = map image_finding ds"
    by (simp add: findings_of_def)
  with assms(1,3) show ?thesis by (simp add: image_finding_def)
qed

lemma analysis_pass_Inr_trace:
  assumes "analysis_pass E v tr = (Inr r, tr')"
  shows "\<exists>st nav. tr' = tr @ nav @ [EvaluateFonts, EvaluateImages]
           \<and> r = analysis v st (fonts_of (fontFamilies (document E (length (tr @ nav)))))
                   (distorted_of (images (document E (Suc (length (tr @ nav))))))"
proof -
  from assms [unfolded analysis_pass_def] obtain resp tr1 where
    g: "safeGoto E v tr = (Inr resp, tr1)"
    and rest: "bind_io (engine_call E EvaluateFonts (\<lambda>t. fonts_of (fontFamilies (document E t))))
         (\<lambda>fonts. bind_io (engine_call E EvaluateImages (\<lambda>t. distorted_of (images (document E t))))
           (\<lambda>distorted. return_io (analysis v (status resp) fonts distorted))) tr1 = (Inr r, tr')"
    by (rule bind_io_Inr)
  from rest obtain fonts tr2 where
    f: "engine_call E EvaluateFonts (\<lambda>t. fonts_of (fontFamilies (document E t))) tr1 = (Inr fonts, tr2)"
    and rest2: "bind_io (engine_call E EvaluateImages (\<lambda>t. distorted_of (images (document E t))))
           (\<lambda>distorted. return_io (analysis v (status resp) fonts distorted)) tr2 = (Inr r, tr')"
    by (rule bind_io_Inr)
  from rest2 obtain ds tr3 where
    d: "engine_call E EvaluateImages (\<lambda>t. distorted_of (images (document E t))) tr2 = (Inr ds, tr3)"
    and ret: "return_io (analysis v (status resp) fonts ds) tr3 = (Inr r, tr')"
    by (rule bind_io_Inr)
  from safeGoto_Inr [OF g] obtain nav where nav: "tr1 = tr @ nav" by auto
  from engine_call_Inr [OF f] have fonts: "fonts = fonts_of (fontFamilies (document E (length tr1)))"
    and tr2: "tr2 = tr1 @ [EvaluateFonts]" by simp_all
  from engine_call_Inr [OF d] have ds: "ds = distorted_of (images (document E (length tr2)))"
    and tr3: "tr3 = tr2 @ [EvaluateImages]" by simp_all
  from ret have r: "r = analysis v (status resp) fonts ds" and tr': "tr' = tr3"
    by (simp_all add: return_io_def)
  show ?thesis
    using nav fonts tr2 ds tr3 r tr'
    by (intro exI [of _ "status resp"] exI [of _ nav]) simp
qed

lemma analyze_Analysis_trace:
  assumes "analyze E b tr = (rep, tr')" and "payload rep = Analysis r"
  shows "\<exists>v st t. Suc t < length tr' \<and> tr' ! t = EvaluateFonts \<and> tr' ! Suc t = EvaluateImages
           \<and> r = analysis v st (fonts_of (fontFamilies (document E t)))
                   (distorted_of (images (document E (Suc t))))"
proof -
  from assms obtain v where w: "withPage E (analysis_pass E v) tr = (Inr r, tr')"
    unfolding analyze_def Let_def
    by (auto split: option.splits if_splits prod.splits sum.splits)
  from withPage_Inr_acquired [OF w] obtain tr1 where
    p: "analysis_pass E v (tr @ setup_events) = (Inr r, tr1)" and tr': "tr' = tr1 @ [Close]"
    by blast
  from analysis_pass_Inr_trace [OF p] obtain st nav where
    tr1: "tr1 = (tr @ setup_events) @ nav @ [EvaluateFonts, EvaluateImages]"
    and r: "r = analysis v st (fonts_of (fontFamilies (document E (length ((tr @ setup_events) @ nav)))))
                   (distorted_of (images (document E (Suc (length ((tr @ setup_events) @ nav))))))"
    by blast
  let ?pre = "(tr @ setup_events) @ nav"
  have shape: "tr' = ?pre @ [EvaluateFonts, EvaluateImages, Close]"
    using tr' tr1 by simp
  have "Suc (length ?pre) < length tr'" "tr' ! length ?pre = EvaluateFonts"
    "tr' ! Suc (length ?pre) = EvaluateImages"
    unfolding shape by (simp_all add: nth_append)
  with r show ?thesis by blast
qed

text \<open>
  Claim C10. In every analysis that \<^verbatim>\<open>/v1/analyze\<close> returns, the findings hold at most
  one \<open>B1\<close> finding, and it comes before every \<open>A1\<close> finding. The handler evaluated the
  fonts script at some step \<open>t\<close> and the images script at the next step; the \<open>A1\<close>
  findings carry, one each and in page order, the reports of the images of that document
  which the loop flags; \<^verbatim>\<open>meta.distortedImages\<close> is the number of \<open>A1\<close> findings, and
  \<^verbatim>\<open>meta.fontsDetected\<close> is the list the fonts script returned.
\<close>

theorem analyze_findings:
  assumes "analyze E b tr = (rep, tr')" and "payload rep = Analysis r"
  shows "length (filter (\<lambda>f. fid f = B1) (findings r)) \<le> 1
    \<and> (\<forall>i j. i < length (findings r) \<and> j < length (findings r)
          \<and> fid (findings r ! i) = B1 \<and> fid (findings r ! j) = A1 \<longrightarrow> i < j)
    \<and> distortedImages (meta r) = length (filter (\<lambda>f. fid f = A1) (findings r))
    \<and> (\<exists>t. Suc t < length tr' \<and> tr' ! t = EvaluateFonts \<and> tr' ! Suc t = EvaluateImages
          \<and> fontsDetected (meta r) = fonts_of (fontFamilies (document E t))
          \<and> map evidence (filter (\<lambda>f. fid f = A1) (findings r))
              = map (\<lambda>i. Image (report i))
                  (filter (flagged THRESHOLD) (images (document E (Suc t)))))"
proof -
  from analyze_Analysis_trace [OF assms] obtain v st t where
    t: "Suc t < length tr'" "tr' ! t = EvaluateFonts" "tr' ! Suc t = EvaluateImages"
    and r: "r = analysis v st (fonts_of (fontFamilies (document E t)))
                   (distorted_of (images (document E (Suc t))))"
    by blast
  let ?fonts = "fonts_of (fontFamilies (document E t))"
  let ?ds = "distorted_of (images (document E (Suc t)))"
  have fs: "findings r = findings_of ?fonts ?ds"
    and fd: "fontsDetected (meta r) = ?fonts" and di: "distortedImages (meta r) = length ?ds"
    unfolding r by (simp_all add: analysis_def)
  have 1: "length (filter (\<lambda>f. fid f = B1) (findings r)) \<le> 1"
    unfolding fs by (simp add: filter_B1_findings_of)
  have 2: "\<forall>i j. i < length (findings r) \<and> j < length (findings r)
          \<and> fid (findings r ! i) = B1 \<and> fid (findings r ! j) = A1 \<longrightarrow> i < j"
    unfolding fs using findings_of_order by blast
  have 3: "distortedImages (meta r) = length (filter (\<lambda>f. fid f = A1) (findings r))"
    unfolding fs di by (simp add: filter_A1_findings_of)
  have 4: "map evidence (filter (\<lambda>f. fid f = A1) (findings r))
              = map (\<lambda>i. Image (report i))
                  (filter (flagged THRESHOLD) (images (document E (Suc t))))"
    unfolding fs
    by (simp add: filter_A1_findings_of distorted_of_def distorted_at_filter
        image_finding_def comp_def)
  show ?thesis
    using 1 2 3 4 fd t by blast
qed

lemma busy_fonts:
  "fonts_of busy_families = [''arial'', ''georgia'', ''verdana'', ''fira code'']"
  by (simp add: busy_families_def fonts_of_def normalize_def first_token_def trim_def
      strip_quotes_def toLowerCase_def lower_char_def is_space_def is_quote_def char_of_def
      bit_iff_odd)

lemma busy_distorted: "length (distorted_of example_images) = 1"
  by (simp add: distorted_of_def distorted_at_filter example_images_def flagged_def measured_def
      delta_def natAR_def rendAR_def THRESHOLD_def fl_values)

lemma busy_analyze:
  "analyze busy_engine example_body []
     = (\<lparr>http_status = 200,
         payload = Analysis (analysis (JStr ''http://example.org'') 200
                     (fonts_of busy_families) (distorted_of example_images))\<rparr>,
        [Launch, NewContext 1366 768, AddInitScript, SetExtraHTTPHeaders, NewPage,
         Goto (JStr ''http://example.org'') networkidle 60000, EvaluateFonts, EvaluateImages, Close])"
  by (simp add: analyze_def example_body_def busy_engine_def example_engine_def
      body_or_empty_def withPage_def bind_io_def engine_call_def analysis_pass_def safeGoto_def
      return_io_def)

theorem analyze_findings_witness:
  "\<exists>rep tr' r. analyze busy_engine example_body [] = (rep, tr') \<and> payload rep = Analysis r
     \<and> map fid (findings r) = [B1, A1]
     \<and> length (filter (\<lambda>f. fid f = B1) (findings r)) \<le> 1
     \<and> distortedImages (meta r) = length (filter (\<lambda>f. fid f = A1) (findings r))
     \<and> fontsDetected (meta r) = [''arial'', ''georgia'', ''verdana'', ''fira code'']"
proof -
  let ?r = "analysis (JStr ''http://example.org'') 200
              (fonts_of busy_families) (distorted_of example_images)"
  obtain d where d: "distorted_of example_images = [d]"
    using busy_distorted by (cases "distorted_of example_images") auto
  have ids: "map fid (findings ?r) = [B1, A1]"
    by (simp add: analysis_def findings_of_def busy_fonts d maxFamilies_def
        font_finding_def image_finding_def)
  have fd: "fontsDetected (meta ?r) = [''arial'', ''georgia'', ''verdana'', ''fira code'']"
    by (simp add: analysis_def busy_fonts)
  from analyze_findings [OF busy_analyze, of ?r]
  have "length (filter (\<lambda>f. fid f = B1) (findings ?r)) \<le> 1
     \<and> distortedImages (meta ?r) = length (filter (\<lambda>f. fid f = A1) (findings ?r))"
    by simp
  with ids fd busy_analyze show ?thesis by auto
qed

end
